theory Spec2Isabelle
  imports Complex_Main "HOL-Library.Multiset"
begin

text \<open>
  A model of the endpoint-health scheduler of the monitoring tool's backend: the probe
  executor and result sink, the job registry and its scheduler loops, the broadcast
  hub, and the API operations on monitors and metrics, with the properties its
  specification states about them.
\<close>

section \<open>Data model\<close>

text \<open>
  A \<open>primitive.ObjectID\<close> is twelve opaque bytes; it is represented here by its
  24-character hexadecimal rendering, so that \<open>id.Hex()\<close> is the identity.
  A \<open>time.Time\<close> is a count of nanoseconds, a \<open>time.Duration\<close> a signed 64-bit
  count of nanoseconds.
\<close>

type_synonym object_id = string
type_synonym time = int
type_synonym go_error = string

record metric =
  MonitorID :: object_id
  MetricURL :: string
  Status :: string
  StatusCode :: int
  ResponseTime :: int
  Error :: string
  CheckedAt :: time

record monitor =
  ID :: object_id
  Name :: string
  URL :: string
  Method :: string
  Interval :: int
  Timeout :: int
  MonStatus :: string
  IsActive :: bool
  CreatedAt :: time
  LastChecked :: "time option"
  UpdatedAt :: time
  CurrentStatus :: string
  CurrentStatusCode :: int
  CurrentResponse :: int
  UptimePercentage :: rat

subsection \<open>Durations\<close>

definition wrap64 :: "int \<Rightarrow> int" where
  "wrap64 x = (x + 2 ^ 63) mod 2 ^ 64 - 2 ^ 63"

definition Second :: int where
  "Second = 1000000000"

definition Hour :: int where
  "Hour = 3600 * Second"

text \<open>\<open>time.Duration(n) * unit\<close>: a product of two \<open>int64\<close> values, which wraps.\<close>

definition duration_mul :: "int \<Rightarrow> int \<Rightarrow> int" where
  "duration_mul n unit = wrap64 (wrap64 n * unit)"

subsection \<open>Floating point\<close>

text \<open>
  A value of Go's \<open>float64\<close> is modelled by the rational number it denotes, and each
  operation by the exact operation followed by IEEE 754 rounding to the nearest double,
  ties to even: 53 significant bits, with the spacing of the subnormal numbers
  \<open>2^-1074\<close> as the finest. Overflow to infinity is not modelled: the operands here are
  conversions of 64-bit integers, their quotients, and such a quotient times 100. The
  divisions of the source are guarded against a zero divisor.
\<close>

definition pow2 :: "int \<Rightarrow> rat" where
  "pow2 k = (if 0 \<le> k then 2 ^ nat k else 1 / 2 ^ nat (- k))"

function bit_len :: "int \<Rightarrow> int" where
  "bit_len n = (if n \<le> 0 then 0 else 1 + bit_len (n div 2))"
  by pat_completeness auto
termination
  by (relation "measure nat") auto

declare bit_len.simps [simp del]

text \<open>For \<open>x > 0\<close>, the exponent \<open>e\<close> with \<open>2^e \<le> x < 2^(e+1)\<close>.\<close>

definition floor_log2 :: "rat \<Rightarrow> int" where
  "floor_log2 x =
     (if 1 \<le> x then bit_len \<lfloor>x\<rfloor> - 1
      else - bit_len (\<lceil>1 / x\<rceil> - 1))"

definition round_half_even :: "rat \<Rightarrow> int" where
  "round_half_even r =
     (let f = \<lfloor>r\<rfloor>; d = r - of_int f
      in if d < 1 / 2 then f else if 1 / 2 < d then f + 1 else if even f then f else f + 1)"

definition fl64 :: "rat \<Rightarrow> rat" where
  "fl64 x =
     (if x = 0 then 0
      else (let k = max (floor_log2 \<bar>x\<bar> - 52) (- 1074)
            in of_int (round_half_even (x / pow2 k)) * pow2 k))"

text \<open>\<open>float64(n)\<close>, \<open>a / b\<close> and \<open>a * b\<close> on \<open>float64\<close>.\<close>

definition f64_of_int :: "int \<Rightarrow> rat" where
  "f64_of_int n = fl64 (of_int n)"

definition f64_div :: "rat \<Rightarrow> rat \<Rightarrow> rat" where
  "f64_div a b = fl64 (a / b)"

definition f64_mul :: "rat \<Rightarrow> rat \<Rightarrow> rat" where
  "f64_mul a b = fl64 (a * b)"

subsection \<open>Channels\<close>

text \<open>
  A buffered channel is its queue, its capacity and whether it has been closed. What a
  goroutine does at a channel is one of three things: it goes on (\<open>Done\<close>), it is
  suspended there (\<open>Blocked\<close>), or it panics.
\<close>

record 'a chan =
  buf :: "'a list"
  cap :: nat
  closed :: bool

datatype 'a go = Done 'a | Blocked | Panic

definition make_chan :: "nat \<Rightarrow> 'a chan" where
  "make_chan n = \<lparr>buf = [], cap = n, closed = False\<rparr>"

text \<open>\<open>ch <- v\<close>: the sender waits while the queue is full.\<close>

definition chan_send :: "'a chan \<Rightarrow> 'a \<Rightarrow> 'a chan go" where
  "chan_send ch v =
     (if closed ch then Panic
      else if length (buf ch) < cap ch then Done (ch\<lparr>buf := buf ch @ [v]\<rparr>)
      else Blocked)"

text \<open>
  \<open>select { case ch <- v: ... default: ... }\<close>: \<open>Done None\<close> is the default branch.
\<close>

definition chan_try_send :: "'a chan \<Rightarrow> 'a \<Rightarrow> 'a chan option go" where
  "chan_try_send ch v =
     (if closed ch then Panic
      else if length (buf ch) < cap ch then Done (Some (ch\<lparr>buf := buf ch @ [v]\<rparr>))
      else Done None)"

text \<open>\<open><-ch\<close>: the receiver waits while an open channel is empty.\<close>

definition chan_recv :: "'a chan \<Rightarrow> 'a chan go" where
  "chan_recv ch =
     (case buf ch of
        [] \<Rightarrow> if closed ch then Done ch else Blocked
      | v # vs \<Rightarrow> Done (ch\<lparr>buf := vs\<rparr>))"

text \<open>\<open>close(ch)\<close> panics on a channel that is closed already.\<close>

definition chan_close :: "'a chan \<Rightarrow> 'a chan go" where
  "chan_close ch = (if closed ch then Panic else Done (ch\<lparr>closed := True\<rparr>))"

subsection \<open>Messages to observers (models/metric.go)\<close>

record monitor_update =
  upd_MonitorID :: string
  upd_Status :: string
  upd_StatusCode :: int
  upd_ResponseTime :: int
  upd_URL :: string
  upd_Error :: string
  upd_Timestamp :: time
  upd_UptimePercentage :: rat

datatype ws_data = UpdateData monitor_update | TextData "(string \<times> string) list" | NoData

record ws_message =
  Type :: string
  Data :: ws_data
  MsgMonitorID :: string

section \<open>Rolling uptime (services/monitor\_service.go)\<close>

text \<open>
  The storage collaborator can fail: \<open>find_error\<close> is the error of \<open>collection.Find\<close>,
  if any, and \<open>decodes\<close> tells for which documents \<open>cursor.Decode\<close> succeeds.
\<close>

record find_env =
  find_error :: "go_error option"
  decodes :: "metric \<Rightarrow> bool"

definition Find_metrics :: "find_env \<Rightarrow> metric list \<Rightarrow> object_id \<Rightarrow> time \<Rightarrow> go_error + metric list" where
  "Find_metrics env coll monitorID startTime =
     (case find_error env of
        Some err \<Rightarrow> Inl err
      | None \<Rightarrow> Inr (filter (\<lambda>m. MonitorID m = monitorID \<and> startTime \<le> CheckedAt m) coll))"

text \<open>The cursor loop of \<open>calculateUptimePercentage\<close>, with its two counters.\<close>

fun uptime_loop :: "(metric \<Rightarrow> bool) \<Rightarrow> metric list \<Rightarrow> int \<Rightarrow> int \<Rightarrow> int \<times> int" where
  "uptime_loop dec [] totl down = (totl, down)"
| "uptime_loop dec (m # ms) totl down =
     (if dec m
      then uptime_loop dec ms (totl + 1) (if Status m = ''down'' then down + 1 else down)
      else uptime_loop dec ms totl down)"

definition calculateUptimePercentage :: "find_env \<Rightarrow> time \<Rightarrow> metric list \<Rightarrow> object_id \<Rightarrow> rat" where
  "calculateUptimePercentage env now coll monitorID =
     (let startTime = now + duration_mul (- 24) Hour in
      case Find_metrics env coll monitorID startTime of
        Inl err \<Rightarrow> 100
      | Inr cursor \<Rightarrow>
          (case uptime_loop (decodes env) cursor 0 0 of
             (totl, down) \<Rightarrow>
               if totl = 0 then 100
               else f64_mul (f64_div (f64_of_int (totl - down)) (f64_of_int totl)) 100))"

section \<open>Probe executor and result sink (services/monitor\_service.go)\<close>

text \<open>
  The state the probe path works on: the two collections of the store, the counting
  admission gate and the hub's inbound queue.
\<close>

record world =
  monitors :: "monitor list"
  metrics :: "metric list"
  semaphore :: "unit chan"
  Broadcast :: "ws_message chan"

text \<open>
  What the environment answers during one probe: the error of \<open>http.NewRequest\<close> if
  any, the error of \<open>httpClient.Do\<close> or the status code of its response, the elapsed
  milliseconds, the errors of the store's operations, and the clock readings.
\<close>

record probe_env =
  new_request_error :: "go_error option"
  do_result :: "go_error + int"
  elapsed_ms :: int
  insert_error :: "go_error option"
  update_error :: "go_error option"
  uptime_env :: find_env
  clock_now :: time
  clock_update :: time
  clock_uptime :: time

text \<open>
  \<open>UpdateOne\<close> with the filter \<open>_id = monitorID\<close>: the first match is patched.
  The patch sets \<open>current_status_code\<close> in the stored document, a field the
  \<open>Monitor\<close> struct does not declare.
\<close>

fun UpdateOne_status :: "object_id \<Rightarrow> (monitor \<Rightarrow> monitor) \<Rightarrow> monitor list \<Rightarrow> monitor list" where
  "UpdateOne_status monitorID patch [] = []"
| "UpdateOne_status monitorID patch (m # ms) =
     (if ID m = monitorID then patch m # ms else m # UpdateOne_status monitorID patch ms)"

definition updateMonitorStatus ::
  "probe_env \<Rightarrow> object_id \<Rightarrow> string \<Rightarrow> int \<Rightarrow> int \<Rightarrow> time \<Rightarrow> world \<Rightarrow> world" where
  "updateMonitorStatus env monitorID status statusCode responseTime lastChecked w =
     (case update_error env of
        Some err \<Rightarrow> w
      | None \<Rightarrow>
          w\<lparr>monitors :=
              UpdateOne_status monitorID
                (\<lambda>m. m\<lparr>CurrentStatus := status,
                         CurrentStatusCode := statusCode,
                         CurrentResponse := responseTime,
                         LastChecked := Some lastChecked,
                         UpdatedAt := clock_update env\<rparr>)
                (monitors w)\<rparr>)"

definition new_metric :: "monitor \<Rightarrow> string \<Rightarrow> int \<Rightarrow> int \<Rightarrow> string \<Rightarrow> time \<Rightarrow> metric" where
  "new_metric mon status statusCode responseTime errorMsg now =
     \<lparr>MonitorID = ID mon, MetricURL = URL mon, Status = status, StatusCode = statusCode,
      ResponseTime = responseTime, Error = errorMsg, CheckedAt = now\<rparr>"

definition metric_update_message ::
  "monitor \<Rightarrow> string \<Rightarrow> int \<Rightarrow> int \<Rightarrow> string \<Rightarrow> time \<Rightarrow> rat \<Rightarrow> ws_message" where
  "metric_update_message mon status statusCode responseTime errorMsg now uptimePercentage =
     \<lparr>Type = ''metric_update'',
      Data = UpdateData
        \<lparr>upd_MonitorID = ID mon, upd_Status = status, upd_StatusCode = statusCode,
         upd_ResponseTime = responseTime, upd_URL = URL mon, upd_Error = errorMsg,
         upd_Timestamp = now, upd_UptimePercentage = uptimePercentage\<rparr>,
      MsgMonitorID = ID mon\<rparr>"

text \<open>
  \<open>recordMetric\<close>: a failed insert and a failed status update are logged and
  swallowed; the event is handed to the hub by a plain channel send.
\<close>

definition recordMetric ::
  "monitor \<Rightarrow> string \<Rightarrow> int \<Rightarrow> int \<Rightarrow> string \<Rightarrow> probe_env \<Rightarrow> world \<Rightarrow> world go" where
  "recordMetric mon status statusCode responseTime errorMsg env w =
     (let now = clock_now env;
          metric = new_metric mon status statusCode responseTime errorMsg now;
          w1 = (case insert_error env of
                  None \<Rightarrow> w\<lparr>metrics := metrics w @ [metric]\<rparr>
                | Some err \<Rightarrow> w);
          w2 = updateMonitorStatus env (ID mon) status statusCode responseTime now w1;
          uptimePercentage =
            calculateUptimePercentage (uptime_env env) (clock_uptime env) (metrics w2) (ID mon)
      in case chan_send (Broadcast w2)
                (metric_update_message mon status statusCode responseTime errorMsg now
                   uptimePercentage) of
           Done ch \<Rightarrow> Done (w2\<lparr>Broadcast := ch\<rparr>)
         | Blocked \<Rightarrow> Blocked
         | Panic \<Rightarrow> Panic)"

text \<open>
  \<open>ms.semaphore <- struct{}{}\<close> followed by \<open>defer func() { <-ms.semaphore }()\<close>
  around a body: the slot is given back when the body returns or panics.
\<close>

definition with_semaphore :: "(world \<Rightarrow> world go) \<Rightarrow> world \<Rightarrow> world go" where
  "with_semaphore body w =
     (case chan_send (semaphore w) () of
        Blocked \<Rightarrow> Blocked
      | Panic \<Rightarrow> Panic
      | Done sem \<Rightarrow>
          (case body (w\<lparr>semaphore := sem\<rparr>) of
             Blocked \<Rightarrow> Blocked
           | Panic \<Rightarrow> Panic
           | Done w' \<Rightarrow>
               (case chan_recv (semaphore w') of
                  Done sem' \<Rightarrow> Done (w'\<lparr>semaphore := sem'\<rparr>)
                | Blocked \<Rightarrow> Blocked
                | Panic \<Rightarrow> Panic)))"

definition checkEndpoint :: "monitor \<Rightarrow> probe_env \<Rightarrow> world \<Rightarrow> world go" where
  "checkEndpoint mon env =
     with_semaphore
       (\<lambda>w. case new_request_error env of
               Some err \<Rightarrow> recordMetric mon ''down'' 0 0 err env w
             | None \<Rightarrow>
                 (let responseTime = elapsed_ms env in
                  case do_result env of
                    Inl err \<Rightarrow> recordMetric mon ''down'' 0 responseTime err env w
                  | Inr code \<Rightarrow>
                      (let status = (if code \<ge> 400 then ''down'' else ''up'')
                       in recordMetric mon status code responseTime [] env w)))"

text \<open>Auxiliary: the store after \<open>recordMetric\<close> has written, before the hand-off.\<close>

definition sink_state :: "monitor \<Rightarrow> string \<Rightarrow> int \<Rightarrow> int \<Rightarrow> string \<Rightarrow> probe_env \<Rightarrow> world \<Rightarrow> world" where
  "sink_state mon status statusCode responseTime errorMsg env w =
     updateMonitorStatus env (ID mon) status statusCode responseTime (clock_now env)
       (case insert_error env of
          None \<Rightarrow> w\<lparr>metrics := metrics w @ [new_metric mon status statusCode responseTime errorMsg (clock_now env)]\<rparr>
        | Some err \<Rightarrow> w)"

subsection \<open>Sample values\<close>

definition sample_monitor :: monitor where
  "sample_monitor =
     \<lparr>ID = ''65f0a1b2c3d4e5f601234567'', Name = ''x'', URL = ''http://x'', Method = ''GET'', Interval = 5,
      Timeout = 2, MonStatus = ''active'', IsActive = True, CreatedAt = 0, LastChecked = None,
      UpdatedAt = 0,
      CurrentStatus = ''unknown'', CurrentStatusCode = 0, CurrentResponse = 0,
      UptimePercentage = 100\<rparr>"

definition sample_world :: world where
  "sample_world =
     \<lparr>monitors = [sample_monitor], metrics = [], semaphore = make_chan 10,
      Broadcast = make_chan 256\<rparr>"

definition sample_env :: "go_error option \<Rightarrow> go_error + int \<Rightarrow> probe_env" where
  "sample_env req_err res =
     \<lparr>new_request_error = req_err, do_result = res, elapsed_ms = 7, insert_error = None,
      update_error = None, uptime_env = \<lparr>find_error = None, decodes = (\<lambda>m. True)\<rparr>,
      clock_now = 50, clock_update = 51, clock_uptime = 52\<rparr>"

section \<open>Broadcast hub (services/websocket\_service.go)\<close>

text \<open>
  A \<open>*WebSocketClient\<close> is a reference into a store of client objects; the hub's
  \<open>Clients\<close> map, whose values are always \<open>true\<close>, is the set of its keys.
\<close>

type_synonym client_ref = nat

record ws_client =
  Send :: "ws_message chan"
  ConnClosed :: bool
  ClientID :: string

record hub =
  Clients :: "client_ref set"
  objects :: "client_ref \<Rightarrow> ws_client"

definition set_Send :: "client_ref \<Rightarrow> ws_message chan \<Rightarrow> hub \<Rightarrow> hub" where
  "set_Send c ch h = h\<lparr>objects := (objects h)(c := (objects h c)\<lparr>Send := ch\<rparr>)\<rparr>"

definition unregisterClient :: "hub \<Rightarrow> client_ref \<Rightarrow> hub go" where
  "unregisterClient h client =
     (if client \<in> Clients h then
        (case chan_close (Send (objects h client)) of
           Done ch \<Rightarrow>
             Done (h\<lparr>Clients := Clients h - {client},
                     objects := (objects h)(client := (objects h client)\<lparr>Send := ch, ConnClosed := True\<rparr>)\<rparr>)
         | Blocked \<Rightarrow> Blocked
         | Panic \<Rightarrow> Panic)
      else Done h)"

text \<open>
  The \<open>Broadcast\<close> case of \<open>Run\<close>. A \<open>range\<close> over a Go map visits the keys in
  no fixed order, and a key deleted before it is reached is not visited: \<open>order\<close> is the
  order of the visit.
\<close>

fun broadcast_loop :: "ws_message \<Rightarrow> client_ref list \<Rightarrow> hub \<Rightarrow> hub go" where
  "broadcast_loop message [] h = Done h"
| "broadcast_loop message (client # rest) h =
     (if client \<notin> Clients h then broadcast_loop message rest h
      else
        (case chan_try_send (Send (objects h client)) message of
           Done (Some ch) \<Rightarrow> broadcast_loop message rest (set_Send client ch h)
         | Done None \<Rightarrow>
             (case unregisterClient h client of
                Done h' \<Rightarrow> broadcast_loop message rest h'
              | Blocked \<Rightarrow> Blocked
              | Panic \<Rightarrow> Panic)
         | Blocked \<Rightarrow> Blocked
         | Panic \<Rightarrow> Panic))"

text \<open>The \<open>Register\<close> and \<open>Unregister\<close> cases of \<open>Run\<close>.\<close>

definition welcome_message :: ws_message where
  "welcome_message =
     \<lparr>Type = ''connection_established'',
      Data = TextData [(''status'', ''connected''), (''message'', ''Real-time monitoring connected'')],
      MsgMonitorID = []\<rparr>"

definition hub_register :: "hub \<Rightarrow> client_ref \<Rightarrow> hub go" where
  "hub_register h client =
     (let h1 = h\<lparr>Clients := insert client (Clients h)\<rparr> in
      case chan_try_send (Send (objects h1 client)) welcome_message of
        Done (Some ch) \<Rightarrow> Done (set_Send client ch h1)
      | Done None \<Rightarrow> unregisterClient h1 client
      | Blocked \<Rightarrow> Blocked
      | Panic \<Rightarrow> Panic)"

definition hub_unregister :: "hub \<Rightarrow> client_ref \<Rightarrow> hub go" where
  "hub_unregister h client =
     (if client \<in> Clients h then
        (case chan_close (Send (objects h client)) of
           Done ch \<Rightarrow> Done (set_Send client ch (h\<lparr>Clients := Clients h - {client}\<rparr>))
         | Blocked \<Rightarrow> Blocked
         | Panic \<Rightarrow> Panic)
      else Done h)"

text \<open>
  \<open>BroadcastToAll\<close>: the hand-off that does not wait. The flag tells whether the
  message was dropped with the warning.
\<close>

definition BroadcastToAll :: "string \<Rightarrow> ws_data \<Rightarrow> ws_message chan \<Rightarrow> (ws_message chan \<times> bool) go" where
  "BroadcastToAll messageType data ch =
     (let message = \<lparr>Type = messageType, Data = data, MsgMonitorID = []\<rparr> in
      case chan_try_send ch message of
        Done (Some ch') \<Rightarrow> Done (ch', False)
      | Done None \<Rightarrow> Done (ch, True)
      | Blocked \<Rightarrow> Blocked
      | Panic \<Rightarrow> Panic)"

text \<open>Every registered observer's queue is open: a queue is closed only on removal.\<close>

definition hub_inv :: "hub \<Rightarrow> bool" where
  "hub_inv h = (\<forall>c \<in> Clients h. \<not> closed (Send (objects h c)))"

definition has_room :: "hub \<Rightarrow> client_ref \<Rightarrow> bool" where
  "has_room h c = (length (buf (Send (objects h c))) < cap (Send (objects h c)))"

text \<open>Auxiliary: an observer after a delivery, and after its eviction.\<close>

definition delivered :: "ws_message \<Rightarrow> ws_client \<Rightarrow> ws_client" where
  "delivered message cl = cl\<lparr>Send := (Send cl)\<lparr>buf := buf (Send cl) @ [message]\<rparr>\<rparr>"

definition evicted :: "ws_client \<Rightarrow> ws_client" where
  "evicted cl = cl\<lparr>Send := (Send cl)\<lparr>closed := True\<rparr>, ConnClosed := True\<rparr>"

definition fresh_client :: ws_client where
  "fresh_client = \<lparr>Send = make_chan 256, ConnClosed = False, ClientID = ''client_1''\<rparr>"

definition saturated_queue :: "ws_message chan" where
  "saturated_queue = \<lparr>buf = replicate 256 welcome_message, cap = 256, closed = False\<rparr>"

definition sample_hub :: hub where
  "sample_hub =
     \<lparr>Clients = {1, 2, 3},
      objects = (\<lambda>c. if c = 2 then fresh_client\<lparr>Send := saturated_queue\<rparr> else fresh_client)\<rparr>"

section \<open>Job registry (services/monitor\_service.go)\<close>

text \<open>
  Stop channels live in a store, allocated by \<open>make(chan bool)\<close>. A call of
  \<open>startMonitorJob\<close> works on the registry under \<open>jobsMutex\<close>, releases it, and then
  launches the goroutine: \<open>pending\<close> holds the calls that have released the mutex and
  not launched yet, \<open>loops\<close> the goroutines launched, each with the monitor and the
  stop channel it was given.
\<close>

type_synonym chan_ref = nat

record job_registry =
  activeJobs :: "string \<rightharpoonup> chan_ref"
  stop_chans :: "chan_ref \<Rightarrow> bool chan"
  next_chan :: chan_ref
  pending :: "(monitor \<times> chan_ref) list"
  loops :: "(monitor \<times> chan_ref) list"

definition NewMonitorService :: job_registry where
  "NewMonitorService =
     \<lparr>activeJobs = Map.empty, stop_chans = (\<lambda>r. make_chan 0), next_chan = 0,
      pending = [], loops = []\<rparr>"

definition close_stop :: "job_registry \<Rightarrow> chan_ref \<Rightarrow> job_registry go" where
  "close_stop reg stopChan =
     (case chan_close (stop_chans reg stopChan) of
        Done ch \<Rightarrow> Done (reg\<lparr>stop_chans := (stop_chans reg)(stopChan := ch)\<rparr>)
      | Blocked \<Rightarrow> Blocked
      | Panic \<Rightarrow> Panic)"

text \<open>The part of \<open>startMonitorJob\<close> between \<open>Lock\<close> and \<open>Unlock\<close>.\<close>

definition start_locked :: "job_registry \<Rightarrow> monitor \<Rightarrow> job_registry go" where
  "start_locked reg mon =
     (let monitorID = ID mon in
      case (case activeJobs reg monitorID of
              Some stopChan \<Rightarrow> close_stop reg stopChan
            | None \<Rightarrow> Done reg) of
        Done reg1 \<Rightarrow>
          (let stopChan = next_chan reg1 in
           Done (reg1\<lparr>activeJobs := (activeJobs reg1)(monitorID \<mapsto> stopChan),
                      stop_chans := (stop_chans reg1)(stopChan := make_chan 0),
                      next_chan := Suc stopChan,
                      pending := pending reg1 @ [(mon, stopChan)]\<rparr>))
      | Blocked \<Rightarrow> Blocked
      | Panic \<Rightarrow> Panic)"

text \<open>The \<open>go func() { ... }()\<close> of the \<open>k\<close>-th pending call.\<close>

definition start_go :: "job_registry \<Rightarrow> nat \<Rightarrow> job_registry" where
  "start_go reg k =
     (if k < length (pending reg)
      then reg\<lparr>pending := take k (pending reg) @ drop (Suc k) (pending reg),
                loops := loops reg @ [pending reg ! k]\<rparr>
      else reg)"

text \<open>A call of \<open>startMonitorJob\<close> that nothing interleaves with.\<close>

definition startMonitorJob :: "job_registry \<Rightarrow> monitor \<Rightarrow> job_registry go" where
  "startMonitorJob reg mon =
     (case start_locked reg mon of
        Done reg' \<Rightarrow> Done (start_go reg' (length (pending reg') - 1))
      | Blocked \<Rightarrow> Blocked
      | Panic \<Rightarrow> Panic)"

definition stopMonitorJob :: "job_registry \<Rightarrow> string \<Rightarrow> job_registry go" where
  "stopMonitorJob reg monitorID =
     (case activeJobs reg monitorID of
        Some stopChan \<Rightarrow>
          (case close_stop reg stopChan of
             Done reg1 \<Rightarrow> Done (reg1\<lparr>activeJobs := (activeJobs reg1)(monitorID := None)\<rparr>)
           | Blocked \<Rightarrow> Blocked
           | Panic \<Rightarrow> Panic)
      | None \<Rightarrow> Done reg)"

text \<open>
  The steps that goroutines take on the registry, each atomic under the mutex, and
  their interleavings as sequences.
\<close>

datatype job_step = StartLocked monitor | StartGo nat | StopJob string

definition job_step :: "job_registry \<Rightarrow> job_step \<Rightarrow> job_registry go" where
  "job_step reg s =
     (case s of
        StartLocked mon \<Rightarrow> start_locked reg mon
      | StartGo k \<Rightarrow> Done (start_go reg k)
      | StopJob monitorID \<Rightarrow> stopMonitorJob reg monitorID)"

fun run_jobs :: "job_registry \<Rightarrow> job_step list \<Rightarrow> job_registry go" where
  "run_jobs reg [] = Done reg"
| "run_jobs reg (s # ss) =
     (case job_step reg s of
        Done reg' \<Rightarrow> run_jobs reg' ss
      | Blocked \<Rightarrow> Blocked
      | Panic \<Rightarrow> Panic)"

text \<open>
  The scheduler loops of a monitor id, launched or about to be, whose stop channel has
  not been closed.
\<close>

definition live_jobs :: "job_registry \<Rightarrow> string \<Rightarrow> (monitor \<times> chan_ref) list" where
  "live_jobs reg monitorID =
     filter (\<lambda>(mon, stopChan). ID mon = monitorID \<and> \<not> closed (stop_chans reg stopChan))
       (pending reg @ loops reg)"

definition registry_inv :: "job_registry \<Rightarrow> bool" where
  "registry_inv reg =
     ((\<forall>monitorID stopChan. activeJobs reg monitorID = Some stopChan \<longrightarrow>
          stopChan < next_chan reg \<and> \<not> closed (stop_chans reg stopChan)) \<and>
      (\<forall>a b stopChan. activeJobs reg a = Some stopChan \<longrightarrow>
          activeJobs reg b = Some stopChan \<longrightarrow> a = b) \<and>
      (\<forall>(mon, stopChan) \<in> set (pending reg @ loops reg).
          stopChan < next_chan reg \<and>
          (\<not> closed (stop_chans reg stopChan) \<longrightarrow> activeJobs reg (ID mon) = Some stopChan)) \<and>
      distinct (map snd (pending reg @ loops reg)))"

section \<open>Monitor definitions and the metrics query (services, handlers, models)\<close>

text \<open>
  What the store answers to the operations of the API: the error of each operation, if
  any, and the identifier it gives an inserted monitor.
\<close>

record store_env =
  db_count_error :: "go_error option"
  db_insert_error :: "go_error option"
  db_inserted_id :: object_id
  db_delete_error :: "go_error option"
  db_find_error :: "go_error option"
  db_all_error :: "go_error option"

record create_request =
  req_Name :: string
  req_URL :: string
  req_Method :: string
  req_Interval :: int
  req_Timeout :: int

definition Validate :: "create_request \<Rightarrow> create_request" where
  "Validate req =
     (let req1 = (if req_Method req = [] then req\<lparr>req_Method := ''GET''\<rparr> else req);
          req2 = (if req_Interval req1 = 0 then req1\<lparr>req_Interval := 30\<rparr> else req1)
      in if req_Timeout req2 = 0 then req2\<lparr>req_Timeout := 10\<rparr> else req2)"

definition NilObjectID :: object_id where
  "NilObjectID = replicate 24 (CHR ''0'')"

definition ToMonitor :: "time \<Rightarrow> create_request \<Rightarrow> monitor" where
  "ToMonitor now req0 =
     (let req = Validate req0 in
      \<lparr>ID = NilObjectID, Name = req_Name req, URL = req_URL req, Method = req_Method req,
       Interval = req_Interval req, Timeout = req_Timeout req, MonStatus = ''active'',
       IsActive = True, CreatedAt = now, LastChecked = None, UpdatedAt = now,
       CurrentStatus = ''unknown'', CurrentStatusCode = 0, CurrentResponse = 0,
       UptimePercentage = 100\<rparr>)"

text \<open>\<open>fmt.Errorf("monitor with URL %s already exists", url)\<close>.\<close>

definition already_exists :: "string \<Rightarrow> go_error" where
  "already_exists url = ''monitor with URL '' @ url @ '' already exists''"

definition CreateMonitor ::
  "store_env \<Rightarrow> monitor list \<Rightarrow> monitor \<Rightarrow> (go_error + monitor) \<times> monitor list" where
  "CreateMonitor env coll mon =
     (case db_count_error env of
        Some err \<Rightarrow> (Inl err, coll)
      | None \<Rightarrow>
          (let count = length (filter (\<lambda>m. URL m = URL mon) coll) in
           if count > 0 then (Inl (already_exists (URL mon)), coll)
           else
             (case db_insert_error env of
                Some err \<Rightarrow> (Inl err, coll)
              | None \<Rightarrow>
                  (let mon' = mon\<lparr>ID := db_inserted_id env\<rparr>
                   in (Inr mon', coll @ [mon'])))))"

text \<open>
  The handler of \<open>POST /api/v1/monitors\<close>, from the bound request on; the result is
  the HTTP status with the registry and the collection after the call.
\<close>

definition CreateMonitor_handler ::
  "store_env \<Rightarrow> time \<Rightarrow> go_error + create_request \<Rightarrow> job_registry \<times> monitor list \<Rightarrow>
     (int \<times> job_registry \<times> monitor list) go" where
  "CreateMonitor_handler env now bound st =
     (case st of (reg, coll) \<Rightarrow>
        (case bound of
           Inl err \<Rightarrow> Done (400, reg, coll)
         | Inr req \<Rightarrow>
             (case CreateMonitor env coll (ToMonitor now req) of
                (Inl err, coll') \<Rightarrow>
                  if err = ''monitor with URL '' @ req_URL req @ '' already exists''
                  then Done (409, reg, coll')
                  else Done (500, reg, coll')
              | (Inr mon, coll') \<Rightarrow>
                  if IsActive mon
                  then (case startMonitorJob reg mon of
                          Done reg' \<Rightarrow> Done (201, reg', coll')
                        | Blocked \<Rightarrow> Blocked
                        | Panic \<Rightarrow> Panic)
                  else Done (201, reg, coll'))))"

text \<open>\<open>DeleteOne\<close> with the filter \<open>_id = id\<close>: the deleted count and the collection.\<close>

fun DeleteOne :: "object_id \<Rightarrow> monitor list \<Rightarrow> nat \<times> monitor list" where
  "DeleteOne monitorID [] = (0, [])"
| "DeleteOne monitorID (m # ms) =
     (if ID m = monitorID then (1, ms)
      else (case DeleteOne monitorID ms of (n, ms') \<Rightarrow> (n, m # ms')))"

definition DeleteMonitor ::
  "store_env \<Rightarrow> job_registry \<times> monitor list \<Rightarrow> object_id \<Rightarrow>
     (go_error option \<times> job_registry \<times> monitor list) go" where
  "DeleteMonitor env st monitorID =
     (case st of (reg, coll) \<Rightarrow>
        (case stopMonitorJob reg monitorID of
           Blocked \<Rightarrow> Blocked
         | Panic \<Rightarrow> Panic
         | Done reg' \<Rightarrow>
             (case db_delete_error env of
                Some err \<Rightarrow> Done (Some err, reg', coll)
              | None \<Rightarrow>
                  (case DeleteOne monitorID coll of
                     (DeletedCount, coll') \<Rightarrow>
                       if DeletedCount = 0 then Done (Some ''monitor not found'', reg', coll')
                       else Done (None, reg', coll')))))"

subsection \<open>The metrics query\<close>

text \<open>
  \<open>strconv.Atoi\<close>: an optional sign and decimal digits, within the range of \<open>int\<close>
  (64 bits); \<open>None\<close> stands for its error.
\<close>

definition is_digit :: "char \<Rightarrow> bool" where
  "is_digit c = (c \<in> set ''0123456789'')"

definition digits_value :: "string \<Rightarrow> int" where
  "digits_value ds = foldl (\<lambda>n ch. n * 10 + (of_char ch - 48)) 0 ds"

definition Atoi :: "string \<Rightarrow> int option" where
  "Atoi s =
     (case s of
        [] \<Rightarrow> None
      | c # cs \<Rightarrow>
          (let ds = (if c = CHR ''-'' \<or> c = CHR ''+'' then cs else s) in
           if ds = [] \<or> \<not> list_all is_digit ds then None
           else
             (let n = (if c = CHR ''-'' then - digits_value ds else digits_value ds) in
              if n < - (2 ^ 63) \<or> 2 ^ 63 - 1 < n then None else Some n)))"

text \<open>\<open>primitive.ObjectIDFromHex\<close>: twenty-four hexadecimal digits, of either case.\<close>

definition lower_hex :: "char \<Rightarrow> char option" where
  "lower_hex c =
     (if c \<in> set ''0123456789abcdef'' then Some c
      else map_of [(CHR ''A'', CHR ''a''), (CHR ''B'', CHR ''b''), (CHR ''C'', CHR ''c''),
                   (CHR ''D'', CHR ''d''), (CHR ''E'', CHR ''e''), (CHR ''F'', CHR ''f'')] c)"

definition ObjectIDFromHex :: "string \<Rightarrow> object_id option" where
  "ObjectIDFromHex s =
     (if length s = 24 \<and> list_all (\<lambda>c. lower_hex c \<noteq> None) s
      then Some (map (\<lambda>c. the (lower_hex c)) s)
      else None)"

definition GetMetrics ::
  "store_env \<Rightarrow> time \<Rightarrow> metric list \<Rightarrow> object_id \<Rightarrow> int \<Rightarrow> go_error + metric list" where
  "GetMetrics env now coll monitorID hours =
     (let startTime = now + duration_mul (- hours) Hour in
      case db_find_error env of
        Some err \<Rightarrow> Inl err
      | None \<Rightarrow>
          (let cursor =
                 take 1000
                   (sort_key (\<lambda>m. - CheckedAt m)
                      (filter (\<lambda>m. MonitorID m = monitorID \<and> startTime \<le> CheckedAt m) coll))
           in case db_all_error env of
                Some err \<Rightarrow> Inl err
              | None \<Rightarrow> Inr cursor))"

definition clamp_hours :: "string \<Rightarrow> int" where
  "clamp_hours hoursParam =
     (case Atoi hoursParam of
        None \<Rightarrow> 24
      | Some hours \<Rightarrow> if hours < 1 \<or> hours > 168 then 24 else hours)"

record metrics_summary =
  total_checks :: int
  successful_checks :: int
  failed_checks :: int
  uptime_percentage :: rat
  average_response :: rat
  min_response :: int
  max_response :: int

text \<open>
  The loop of \<open>calculateMetricsSummary\<close>; \<open>totalResponseTime\<close> is an \<open>int64\<close> and
  wraps.
\<close>

fun summary_loop ::
  "metric list \<Rightarrow> int \<times> int \<times> int \<times> int \<times> int \<Rightarrow> int \<times> int \<times> int \<times> int \<times> int" where
  "summary_loop [] acc = acc"
| "summary_loop (m # ms) (successfulChecks, failedChecks, totalResponseTime, minResponse, maxResponse) =
     summary_loop ms
       (if Status m = ''up'' then successfulChecks + 1 else successfulChecks,
        if Status m = ''up'' then failedChecks else failedChecks + 1,
        wrap64 (totalResponseTime + ResponseTime m),
        if ResponseTime m < minResponse then ResponseTime m else minResponse,
        if ResponseTime m > maxResponse then ResponseTime m else maxResponse)"

definition calculateMetricsSummary :: "metric list \<Rightarrow> metrics_summary" where
  "calculateMetricsSummary ms =
     (case ms of
        [] \<Rightarrow>
          \<lparr>total_checks = 0, successful_checks = 0, failed_checks = 0, uptime_percentage = 0,
           average_response = 0, min_response = 0, max_response = 0\<rparr>
      | m0 # rest \<Rightarrow>
          (case summary_loop ms (0, 0, 0, ResponseTime m0, ResponseTime m0) of
             (successfulChecks, failedChecks, totalResponseTime, minResponse, maxResponse) \<Rightarrow>
               \<lparr>total_checks = int (length ms),
                successful_checks = successfulChecks,
                failed_checks = failedChecks,
                uptime_percentage =
                  f64_mul (f64_div (f64_of_int successfulChecks) (f64_of_int (int (length ms)))) 100,
                average_response =
                  f64_div (f64_of_int totalResponseTime) (f64_of_int (int (length ms))),
                min_response = minResponse,
                max_response = maxResponse\<rparr>))"

text \<open>
  The handler of \<open>GET /api/v1/monitors/:id/metrics\<close>; \<open>hoursQuery\<close> is the \<open>hours\<close>
  query parameter, if given.
\<close>

datatype metrics_response =
  BadRequest
| InternalServerError go_error
| OK "metric list" metrics_summary int

definition GetMetrics_handler ::
  "store_env \<Rightarrow> time \<Rightarrow> metric list \<Rightarrow> string \<Rightarrow> string option \<Rightarrow> metrics_response" where
  "GetMetrics_handler env now coll idParam hoursQuery =
     (case ObjectIDFromHex idParam of
        None \<Rightarrow> BadRequest
      | Some objectID \<Rightarrow>
          (let hoursParam = (case hoursQuery of None \<Rightarrow> ''24'' | Some v \<Rightarrow> v);
               hours = clamp_hours hoursParam
           in case GetMetrics env now coll objectID hours of
                Inl err \<Rightarrow> InternalServerError err
              | Inr rows \<Rightarrow> OK rows (calculateMetricsSummary rows) hours))"

definition sample_store :: store_env where
  "sample_store =
     \<lparr>db_count_error = None, db_insert_error = None,
      db_inserted_id = ''65f0a1b2c3d4e5f6012345aa'', db_delete_error = None,
      db_find_error = None, db_all_error = None\<rparr>"

definition sample_request :: create_request where
  "sample_request =
     \<lparr>req_Name = ''again'', req_URL = ''http://x'', req_Method = [], req_Interval = 0,
      req_Timeout = 0\<rparr>"

definition sample_registry :: job_registry where
  "sample_registry =
     \<lparr>activeJobs = [''65f0a1b2c3d4e5f601234567'' \<mapsto> 0], stop_chans = (\<lambda>r. make_chan 0), next_chan = 1,
      pending = [], loops = [(sample_monitor, 0)]\<rparr>"

definition sample_metric :: "string \<Rightarrow> int \<Rightarrow> time \<Rightarrow> metric" where
  "sample_metric status ms checkedAt =
     \<lparr>MonitorID = ''65f0a1b2c3d4e5f601234567'', MetricURL = ''http://x'', Status = status,
      StatusCode = (if status = ''up'' then 200 else 500), ResponseTime = ms, Error = [],
      CheckedAt = checkedAt\<rparr>"

text \<open>Auxiliary: the arguments with which a probe calls \<open>recordMetric\<close>.\<close>

definition classify :: "probe_env \<Rightarrow> string \<times> int \<times> int \<times> string" where
  "classify env =
     (case new_request_error env of
        Some err \<Rightarrow> (''down'', 0, 0, err)
      | None \<Rightarrow>
          (case do_result env of
             Inl err \<Rightarrow> (''down'', 0, elapsed_ms env, err)
           | Inr code \<Rightarrow> (if code \<ge> 400 then ''down'' else ''up'', code, elapsed_ms env, [])))"

definition sample_history :: "metric list" where
  "sample_history =
     replicate 8 (sample_metric ''up'' 12 10) @
     [sample_metric ''down'' 30 11,
      sample_metric ''down'' 30 (- 90000000000000),
      (sample_metric ''down'' 9 12)\<lparr>MonitorID := ''65f0a1b2c3d4e5f6012345bb''\<rparr>]"

section \<open>Scheduler loop (the goroutine of \<open>startMonitorJob\<close>)\<close>

text \<open>
  Time is counted in nanoseconds. \<open>time.NewTicker\<close> panics on a period that is not
  positive. A ticker created at \<open>t0\<close> with period \<open>d\<close> fires at \<open>t0 + d\<close>,
  \<open>t0 + 2 * d\<close>, and so on, into a channel that holds one tick: a tick that finds the
  channel full is dropped. So after a receive at time \<open>r\<close> the next tick to be had is
  the one of the first firing after \<open>r\<close>.
\<close>

definition NewTicker :: "int \<Rightarrow> int go" where
  "NewTicker d = (if d \<le> 0 then Panic else Done d)"

definition next_fire :: "int \<Rightarrow> int \<Rightarrow> int \<Rightarrow> int" where
  "next_fire t0 d r = t0 + ((r - t0) div d + 1) * d"

text \<open>
  The \<open>select\<close> of the loop, begun at time \<open>t\<close>: \<open>tick\<close> is when the next tick
  enters the ticker's channel, \<open>stop\<close> when the stop channel is closed, if ever. The
  case that is ready first is taken, at the time it is ready; when both are ready
  together Go chooses at random, which \<open>prefer_tick\<close> decides here.
\<close>

datatype wakeup = TickerC int | StopChan int

definition select_wakeup :: "int \<Rightarrow> int option \<Rightarrow> int \<Rightarrow> bool \<Rightarrow> wakeup" where
  "select_wakeup tick stop t prefer_tick =
     (let a = max tick t in
      case stop of
        None \<Rightarrow> TickerC a
      | Some ts \<Rightarrow>
          (let b = max ts t in
           if a < b then TickerC a
           else if b < a then StopChan b
           else if prefer_tick then TickerC a else StopChan b))"

text \<open>
  What the environment gives for one probe of the loop: the answers to the probe, how
  long the call of \<open>checkEndpoint\<close> takes, how many messages the hub's \<open>Run\<close> loop
  has received from its inbound queue since the probe before, and the choice of the
  \<open>select\<close> that precedes the probe.
\<close>

record probe_input =
  p_env :: probe_env
  p_duration :: int
  p_hub_received :: nat
  p_prefer_tick :: bool

definition hub_receives :: "nat \<Rightarrow> world \<Rightarrow> world" where
  "hub_receives k w = w\<lparr>Broadcast := (Broadcast w)\<lparr>buf := drop k (buf (Broadcast w))\<rparr>\<rparr>"

text \<open>
  The loop, from its \<open>select\<close> on: \<open>r\<close> is the time of the last receive from the
  ticker (the ticker's creation at first), \<open>t\<close> the present time. The result is the
  times at which \<open>checkEndpoint\<close> was called, how the loop stands when the inputs end
  (returned, waiting in the \<open>select\<close>, suspended inside a probe, or crashed), and the
  state.
\<close>

datatype loop_end = Returned | Waiting | InProbe | Crashed

fun job_loop ::
  "monitor \<Rightarrow> int \<Rightarrow> int \<Rightarrow> int option \<Rightarrow> int \<Rightarrow> int \<Rightarrow> probe_input list \<Rightarrow> world \<Rightarrow>
     int list \<times> loop_end \<times> world" where
  "job_loop mon t0 d stop r t [] w = ([], Waiting, w)"
| "job_loop mon t0 d stop r t (i # rest) w =
     (case select_wakeup (next_fire t0 d r) stop t (p_prefer_tick i) of
        StopChan b \<Rightarrow> ([], Returned, w)
      | TickerC a \<Rightarrow>
          (let w0 = hub_receives (p_hub_received i) w in
           case checkEndpoint mon (p_env i) w0 of
             Done w' \<Rightarrow>
               (case job_loop mon t0 d stop a (a + p_duration i) rest w' of
                  (starts, e, w_end) \<Rightarrow> (a # starts, e, w_end))
           | Blocked \<Rightarrow> ([a], InProbe, w0)
           | Panic \<Rightarrow> ([a], Crashed, w0)))"

text \<open>The goroutine, started at time \<open>t0\<close>: the ticker, the first check, the loop.\<close>

definition monitor_goroutine ::
  "monitor \<Rightarrow> int \<Rightarrow> int option \<Rightarrow> probe_input \<Rightarrow> probe_input list \<Rightarrow> world \<Rightarrow>
     int list \<times> loop_end \<times> world" where
  "monitor_goroutine mon t0 stop first rest w =
     (case NewTicker (duration_mul (Interval mon) Second) of
        Panic \<Rightarrow> ([], Crashed, w)
      | Blocked \<Rightarrow> ([], Waiting, w)
      | Done d \<Rightarrow>
          (let w0 = hub_receives (p_hub_received first) w in
           case checkEndpoint mon (p_env first) w0 of
             Done w' \<Rightarrow>
               (case job_loop mon t0 d stop t0 (t0 + p_duration first) rest w' of
                  (starts, e, w_end) \<Rightarrow> (t0 # starts, e, w_end))
           | Blocked \<Rightarrow> ([t0], InProbe, w0)
           | Panic \<Rightarrow> ([t0], Crashed, w0)))"

text \<open>
  Auxiliary: the hub's queue after a sequence of probes, each preceded by the hub's
  receives; and the condition that every probe finds room in a queue of capacity \<open>c\<close>
  that holds \<open>len\<close> messages at first.
\<close>

definition queue_after :: "'a list \<Rightarrow> (nat \<times> 'a) list \<Rightarrow> 'a list" where
  "queue_after q steps = foldl (\<lambda>q (k, ev). drop k q @ [ev]) q steps"

fun hub_keeps_up :: "nat \<Rightarrow> nat \<Rightarrow> nat list \<Rightarrow> bool" where
  "hub_keeps_up c len [] = True"
| "hub_keeps_up c len (k # ks) = (len - k < c \<and> hub_keeps_up c (Suc (len - k)) ks)"

definition sample_input :: "int \<Rightarrow> probe_input" where
  "sample_input dur =
     \<lparr>p_env = sample_env None (Inr 200), p_duration = dur, p_hub_received = 1,
      p_prefer_tick = True\<rparr>"

text \<open>
  Auxiliary: a result of the loop that is on schedule. After the \<open>j\<close>-th firing the
  loop has made \<open>n\<close> further probes, at the firings \<open>j + 1\<close> to \<open>j + n\<close>, none later
  than the stop; it has used up its inputs and waits, or it has returned, the stop
  having come no later than the next firing; each probe has appended one update event
  of the monitor to the hub's queue, and each probe whose insert succeeded one metric
  of the monitor to the log.
\<close>

definition on_schedule ::
  "monitor \<Rightarrow> int \<Rightarrow> int \<Rightarrow> int option \<Rightarrow> nat \<Rightarrow> probe_input list \<Rightarrow> world \<Rightarrow>
     int list \<times> loop_end \<times> world \<Rightarrow> bool" where
  "on_schedule mon t0 d stop j inputs w res =
     (\<exists>n ms evs.
        fst res = map (\<lambda>k. t0 + int (j + k) * d) [1..<Suc n] \<and>
        n \<le> length inputs \<and>
        (\<forall>ts. stop = Some ts \<longrightarrow> (\<forall>k. 1 \<le> k \<and> k \<le> n \<longrightarrow> t0 + int (j + k) * d \<le> ts)) \<and>
        (fst (snd res) = Waiting \<and> n = length inputs \<or>
         fst (snd res) = Returned \<and> n < length inputs \<and>
           (\<exists>ts. stop = Some ts \<and> ts \<le> t0 + int (j + Suc n) * d)) \<and>
        metrics (snd (snd res)) = metrics w @ ms \<and>
        length ms = length (filter (\<lambda>i. insert_error (p_env i) = None) (take n inputs)) \<and>
        (\<forall>m \<in> set ms. MonitorID m = ID mon) \<and>
        length evs = n \<and>
        (\<forall>ev \<in> set evs. Type ev = ''metric_update'' \<and> MsgMonitorID ev = ID mon) \<and>
        buf (Broadcast (snd (snd res))) =
          queue_after (buf (Broadcast w)) (zip (map p_hub_received (take n inputs)) evs))"

section \<open>Facts about the model\<close>

lemma uptime_loop_counts:
  "uptime_loop dec ms totl down =
     (totl + int (length (filter dec ms)),
      down + int (length (filter (\<lambda>m. Status m = ''down'') (filter dec ms))))"
  by (induction ms arbitrary: totl down) simp_all

lemma day_before: "duration_mul (- 24) Hour = - 86400000000000"
  by (simp add: duration_mul_def wrap64_def Hour_def Second_def)

section \<open>Properties\<close>

subsection \<open>Probe classification\<close>

lemma sink_state_frame:
  "semaphore (sink_state mon st c rt e env w) = semaphore w"
  "Broadcast (sink_state mon st c rt e env w) = Broadcast w"
  "metrics (sink_state mon st c rt e env w) =
     (case insert_error env of None \<Rightarrow> metrics w @ [new_metric mon st c rt e (clock_now env)]
      | Some err \<Rightarrow> metrics w)"
  by (simp_all add: sink_state_def updateMonitorStatus_def split: option.splits)

lemma recordMetric_room:
  assumes "\<not> closed (Broadcast w)" "length (buf (Broadcast w)) < cap (Broadcast w)"
  shows "recordMetric mon st c rt e env w =
     Done ((sink_state mon st c rt e env w)
        \<lparr>Broadcast := (Broadcast w)\<lparr>buf := buf (Broadcast w) @
           [metric_update_message mon st c rt e (clock_now env)
              (calculateUptimePercentage (uptime_env env) (clock_uptime env)
                 (metrics (sink_state mon st c rt e env w)) (ID mon))]\<rparr>\<rparr>)"
  using assms
  by (simp add: recordMetric_def Let_def chan_send_def sink_state_def[symmetric] sink_state_frame)

lemma with_semaphore_returns:
  assumes "\<not> closed (semaphore w)" "length (buf (semaphore w)) < cap (semaphore w)"
      and "body (w\<lparr>semaphore := (semaphore w)\<lparr>buf := buf (semaphore w) @ [()]\<rparr>\<rparr>) = Done w'"
      and "semaphore w' = (semaphore w)\<lparr>buf := buf (semaphore w) @ [()]\<rparr>"
  shows "\<exists>sem. with_semaphore body w = Done (w'\<lparr>semaphore := sem\<rparr>)"
  using assms
  by (auto simp add: with_semaphore_def chan_send_def chan_recv_def split: list.splits)

text \<open>
  Claim C1. A probe that finds a free slot and room in the hub's queue, and whose metric
  the store accepts, appends exactly one metric for its monitor. A failure to build the
  request or to complete the exchange is recorded as down with code 0 and the error's
  text (not empty, as the texts of \<open>net/http\<close> errors are); a completed exchange
  with a status code of 400 or more as down with that code and no error text; any other
  completed exchange as up with its code and no error text. The update event carries
  the same classification.
\<close>

theorem probe_classification:
  assumes slot: "\<not> closed (semaphore w)" "length (buf (semaphore w)) < cap (semaphore w)"
      and room: "\<not> closed (Broadcast w)" "length (buf (Broadcast w)) < cap (Broadcast w)"
      and stored: "insert_error env = None"
      and texts: "new_request_error env \<noteq> Some []" "do_result env \<noteq> Inl []"
  shows "\<exists>w' m u.
      checkEndpoint mon env w = Done w' \<and>
      metrics w' = metrics w @ [m] \<and> MonitorID m = ID mon \<and>
      (case new_request_error env of
         Some err \<Rightarrow> Status m = ''down'' \<and> StatusCode m = 0 \<and> Error m = err \<and> Error m \<noteq> []
       | None \<Rightarrow>
           (case do_result env of
              Inl err \<Rightarrow> Status m = ''down'' \<and> StatusCode m = 0 \<and> Error m = err \<and> Error m \<noteq> []
            | Inr code \<Rightarrow>
                Status m = (if code \<ge> 400 then ''down'' else ''up'') \<and>
                StatusCode m = code \<and> Error m = [])) \<and>
      buf (Broadcast w') = buf (Broadcast w) @
        [\<lparr>Type = ''metric_update'', Data = UpdateData u, MsgMonitorID = ID mon\<rparr>] \<and>
      upd_Status u = Status m \<and> upd_StatusCode u = StatusCode m \<and> upd_Error u = Error m"
proof -
  let ?w1 = "w\<lparr>semaphore := (semaphore w)\<lparr>buf := buf (semaphore w) @ [()]\<rparr>\<rparr>"
  have room1: "\<not> closed (Broadcast ?w1)" "length (buf (Broadcast ?w1)) < cap (Broadcast ?w1)"
    using room by simp_all
  define st c rt e where
    "st = (case new_request_error env of Some err \<Rightarrow> ''down''
           | None \<Rightarrow> (case do_result env of Inl err \<Rightarrow> ''down''
                       | Inr code \<Rightarrow> if code \<ge> 400 then ''down'' else ''up''))"
    and "c = (case new_request_error env of Some err \<Rightarrow> 0
           | None \<Rightarrow> (case do_result env of Inl err \<Rightarrow> 0 | Inr code \<Rightarrow> code))"
    and "rt = (case new_request_error env of Some err \<Rightarrow> 0 | None \<Rightarrow> elapsed_ms env)"
    and "e = (case new_request_error env of Some err \<Rightarrow> err
           | None \<Rightarrow> (case do_result env of Inl err \<Rightarrow> err | Inr code \<Rightarrow> []))"
  have body: "checkEndpoint mon env = with_semaphore (recordMetric mon st c rt e env)"
    unfolding checkEndpoint_def st_def c_def rt_def e_def
    by (simp add: Let_def split: option.splits sum.splits)
  let ?m = "new_metric mon st c rt e (clock_now env)"
  let ?u = "\<lparr>upd_MonitorID = ID mon, upd_Status = st, upd_StatusCode = c,
         upd_ResponseTime = rt, upd_URL = URL mon, upd_Error = e,
         upd_Timestamp = clock_now env, upd_UptimePercentage =
           calculateUptimePercentage (uptime_env env) (clock_uptime env)
                 (metrics (sink_state mon st c rt e env ?w1)) (ID mon)\<rparr>"
  obtain w2 where w2: "recordMetric mon st c rt e env ?w1 = Done w2"
      and sem2: "semaphore w2 = semaphore ?w1"
      and met2: "metrics w2 = metrics w @ [?m]"
      and bc2: "buf (Broadcast w2) = buf (Broadcast w) @
         [\<lparr>Type = ''metric_update'', Data = UpdateData ?u, MsgMonitorID = ID mon\<rparr>]"
    using recordMetric_room[OF room1, of mon st c rt e env] stored
    by (simp add: sink_state_frame metric_update_message_def)
  have "semaphore w2 = (semaphore w)\<lparr>buf := buf (semaphore w) @ [()]\<rparr>"
    using sem2 by simp
  with with_semaphore_returns[where body = "recordMetric mon st c rt e env", OF slot w2]
  obtain sem where fin: "checkEndpoint mon env w = Done (w2\<lparr>semaphore := sem\<rparr>)"
    unfolding body by blast
  have cls: "(case new_request_error env of
         Some err \<Rightarrow> Status ?m = ''down'' \<and> StatusCode ?m = 0 \<and> Error ?m = err \<and> Error ?m \<noteq> []
       | None \<Rightarrow>
           (case do_result env of
              Inl err \<Rightarrow> Status ?m = ''down'' \<and> StatusCode ?m = 0 \<and> Error ?m = err \<and> Error ?m \<noteq> []
            | Inr code \<Rightarrow>
                Status ?m = (if code \<ge> 400 then ''down'' else ''up'') \<and>
                StatusCode ?m = code \<and> Error ?m = []))"
    using texts
    by (auto simp add: new_metric_def st_def c_def e_def split: option.splits sum.splits)
  have "metrics (w2\<lparr>semaphore := sem\<rparr>) = metrics w @ [?m]"
    "MonitorID ?m = ID mon"
    "buf (Broadcast (w2\<lparr>semaphore := sem\<rparr>)) = buf (Broadcast w) @
        [\<lparr>Type = ''metric_update'', Data = UpdateData ?u, MsgMonitorID = ID mon\<rparr>]"
    "upd_Status ?u = Status ?m" "upd_StatusCode ?u = StatusCode ?m" "upd_Error ?u = Error ?m"
    using met2 bc2 by (simp_all add: new_metric_def)
  with fin cls show ?thesis by blast
qed


theorem probe_classification_witness:
  "(\<exists>w' m. checkEndpoint sample_monitor (sample_env None (Inr 500)) sample_world = Done w' \<and>
       metrics w' = [m] \<and> Status m = ''down'' \<and> StatusCode m = 500 \<and> Error m = []) \<and>
   (\<exists>w' m. checkEndpoint sample_monitor (sample_env None (Inl ''connection refused''))
         sample_world = Done w' \<and>
       metrics w' = [m] \<and> Status m = ''down'' \<and> StatusCode m = 0 \<and>
       Error m = ''connection refused'') \<and>
   (\<exists>w' m. checkEndpoint sample_monitor (sample_env None (Inr 200)) sample_world = Done w' \<and>
       metrics w' = [m] \<and> Status m = ''up'' \<and> StatusCode m = 200 \<and> Error m = [])"
  using probe_classification [of sample_world "sample_env None (Inr 500)" sample_monitor]
        probe_classification [of sample_world "sample_env None (Inl ''connection refused'')"
          sample_monitor]
        probe_classification [of sample_world "sample_env None (Inr 200)" sample_monitor]
  apply (simp add: make_chan_def sample_world_def sample_env_def)
  apply blast
  done

subsection \<open>Broadcast\<close>

lemma broadcast_loop_effect:
  assumes "hub_inv h" "distinct order" "set order \<subseteq> Clients h"
  shows "\<exists>h'. broadcast_loop message order h = Done h' \<and>
           Clients h' = Clients h - {c \<in> set order. \<not> has_room h c} \<and>
           objects h' = (\<lambda>c. if c \<in> set order
                              then (if has_room h c then delivered message (objects h c)
                                    else evicted (objects h c))
                              else objects h c) \<and>
           hub_inv h'"
  using assms
proof (induction order arbitrary: h)
  case Nil
  then show ?case by simp
next
  case (Cons c rest)
  from Cons.prems have cin: "c \<in> Clients h" and opn: "\<not> closed (Send (objects h c))"
    and dist: "distinct rest" and notin: "c \<notin> set rest" and sub: "set rest \<subseteq> Clients h"
    by (auto simp add: hub_inv_def)
  show ?case
  proof (cases "has_room h c")
    case True
    let ?h1 = "set_Send c ((Send (objects h c))\<lparr>buf := buf (Send (objects h c)) @ [message]\<rparr>) h"
    have step: "broadcast_loop message (c # rest) h = broadcast_loop message rest ?h1"
      using cin opn True by (simp add: chan_try_send_def has_room_def)
    have inv1: "hub_inv ?h1"
      using Cons.prems(1) by (auto simp add: hub_inv_def set_Send_def)
    have sub1: "set rest \<subseteq> Clients ?h1" using sub by (simp add: set_Send_def)
    from Cons.IH[OF inv1 dist sub1] obtain h' where
      run: "broadcast_loop message rest ?h1 = Done h'"
      and cl: "Clients h' = Clients ?h1 - {c \<in> set rest. \<not> has_room ?h1 c}"
      and ob: "objects h' = (\<lambda>c. if c \<in> set rest
                              then (if has_room ?h1 c then delivered message (objects ?h1 c)
                                    else evicted (objects ?h1 c))
                              else objects ?h1 c)"
      and inv': "hub_inv h'" by blast
    have room_eq: "\<And>x. x \<in> set rest \<Longrightarrow> has_room ?h1 x = has_room h x"
      using notin by (auto simp add: has_room_def set_Send_def)
    have obj_eq: "\<And>x. x \<in> set rest \<Longrightarrow> objects ?h1 x = objects h x"
      "\<And>x. x \<noteq> c \<Longrightarrow> x \<notin> set rest \<Longrightarrow> objects ?h1 x = objects h x"
      using notin by (auto simp add: set_Send_def)
    have objc: "objects ?h1 c = delivered message (objects h c)"
      by (simp add: set_Send_def delivered_def)
    have "Clients h' = Clients h - {x \<in> set (c # rest). \<not> has_room h x}"
      using cl True room_eq by (auto simp add: set_Send_def)
    moreover have "objects h' = (\<lambda>x. if x \<in> set (c # rest)
                              then (if has_room h x then delivered message (objects h x)
                                    else evicted (objects h x))
                              else objects h x)"
      unfolding ob using True room_eq obj_eq objc notin by (intro ext) (simp del: fun_upd_apply)
    ultimately show ?thesis using step run inv' by simp
  next
    case False
    let ?h1 = "h\<lparr>Clients := Clients h - {c},
                  objects := (objects h)(c := evicted (objects h c))\<rparr>"
    have unreg: "unregisterClient h c = Done ?h1"
      using cin opn by (simp add: unregisterClient_def chan_close_def evicted_def)
    have step: "broadcast_loop message (c # rest) h = broadcast_loop message rest ?h1"
      using cin opn False unreg by (simp add: chan_try_send_def has_room_def)
    have inv1: "hub_inv ?h1"
      using Cons.prems(1) by (auto simp add: hub_inv_def)
    have sub1: "set rest \<subseteq> Clients ?h1" using sub notin by auto
    from Cons.IH[OF inv1 dist sub1] obtain h' where
      run: "broadcast_loop message rest ?h1 = Done h'"
      and cl: "Clients h' = Clients ?h1 - {c \<in> set rest. \<not> has_room ?h1 c}"
      and ob: "objects h' = (\<lambda>c. if c \<in> set rest
                              then (if has_room ?h1 c then delivered message (objects ?h1 c)
                                    else evicted (objects ?h1 c))
                              else objects ?h1 c)"
      and inv': "hub_inv h'" by blast
    have room_eq: "\<And>x. x \<in> set rest \<Longrightarrow> has_room ?h1 x = has_room h x"
      using notin by (auto simp add: has_room_def)
    have obj_eq: "\<And>x. x \<in> set rest \<Longrightarrow> objects ?h1 x = objects h x"
      "\<And>x. x \<noteq> c \<Longrightarrow> x \<notin> set rest \<Longrightarrow> objects ?h1 x = objects h x"
      "objects ?h1 c = evicted (objects h c)"
      using notin by auto
    have "Clients h' = Clients h - {x \<in> set (c # rest). \<not> has_room h x}"
      using cl False room_eq by auto
    moreover have "objects h' = (\<lambda>x. if x \<in> set (c # rest)
                              then (if has_room h x then delivered message (objects h x)
                                    else evicted (objects h x))
                              else objects h x)"
      unfolding ob using False room_eq obj_eq notin by (intro ext) (simp del: fun_upd_apply)
    ultimately show ?thesis using step run inv' by simp
  qed
qed

lemma hub_register_inv:
  assumes "hub_inv h" "\<not> closed (Send (objects h client))"
  shows "\<exists>h'. hub_register h client = Done h' \<and> hub_inv h'"
  using assms
  by (auto simp add: hub_register_def hub_inv_def Let_def chan_try_send_def unregisterClient_def
      chan_close_def set_Send_def)

lemma hub_unregister_inv:
  assumes "hub_inv h"
  shows "\<exists>h'. hub_unregister h client = Done h' \<and> hub_inv h'"
  using assms
  by (auto simp add: hub_unregister_def hub_inv_def chan_close_def set_Send_def)

text \<open>
  Claim C5. One broadcast, over the registered observers in any order of visit: it
  completes without waiting; an observer whose queue has room gets the message
  appended and stays registered; an observer whose queue is full is removed from the
  set, its queue closed and its connection closed; exactly those are removed, and no
  other observer is touched. The queues of registered observers are open, which the
  hub maintains.
\<close>

theorem broadcast_delivers_or_evicts:
  assumes "hub_inv h" "distinct order" "set order = Clients h"
  shows "\<exists>h'. broadcast_loop message order h = Done h' \<and>
     Clients h' = {c \<in> Clients h. has_room h c} \<and>
     (\<forall>c \<in> Clients h.
        if has_room h c
        then c \<in> Clients h' \<and>
             Send (objects h' c) = (Send (objects h c))\<lparr>buf := buf (Send (objects h c)) @ [message]\<rparr> \<and>
             \<not> closed (Send (objects h' c))
        else c \<notin> Clients h' \<and> closed (Send (objects h' c)) \<and>
             buf (Send (objects h' c)) = buf (Send (objects h c)) \<and> ConnClosed (objects h' c)) \<and>
     (\<forall>c. c \<notin> Clients h \<longrightarrow> objects h' c = objects h c)"
proof -
  from assms have sub: "set order \<subseteq> Clients h" by simp
  from broadcast_loop_effect[OF assms(1,2) sub, of message] obtain h' where
    run: "broadcast_loop message order h = Done h'"
    and cl: "Clients h' = Clients h - {c \<in> set order. \<not> has_room h c}"
    and ob: "objects h' = (\<lambda>c. if c \<in> set order
                              then (if has_room h c then delivered message (objects h c)
                                    else evicted (objects h c))
                              else objects h c)"
    by blast
  have "Clients h' = {c \<in> Clients h. has_room h c}"
    using cl assms(3) by auto
  moreover have "\<forall>c \<in> Clients h.
        if has_room h c
        then c \<in> Clients h' \<and>
             Send (objects h' c) = (Send (objects h c))\<lparr>buf := buf (Send (objects h c)) @ [message]\<rparr> \<and>
             \<not> closed (Send (objects h' c))
        else c \<notin> Clients h' \<and> closed (Send (objects h' c)) \<and>
             buf (Send (objects h' c)) = buf (Send (objects h c)) \<and> ConnClosed (objects h' c)"
    using cl assms(1,3) by (auto simp add: ob delivered_def evicted_def hub_inv_def)
  moreover have "\<forall>c. c \<notin> Clients h \<longrightarrow> objects h' c = objects h c"
    using assms(3) by (simp add: ob)
  ultimately show ?thesis using run by blast
qed

theorem broadcast_delivers_or_evicts_witness:
  "\<exists>h'. broadcast_loop welcome_message [1, 2, 3] sample_hub = Done h' \<and>
     Clients h' = {1, 3} \<and>
     buf (Send (objects h' 1)) = [welcome_message] \<and>
     buf (Send (objects h' 3)) = [welcome_message] \<and>
     closed (Send (objects h' 2)) \<and> ConnClosed (objects h' 2)"
proof -
  have inv: "hub_inv sample_hub"
    by (simp add: hub_inv_def sample_hub_def fresh_client_def saturated_queue_def make_chan_def)
  have ord: "distinct [1, 2, 3 :: nat]" "set [1, 2, 3] = Clients sample_hub"
    by (simp_all add: sample_hub_def)
  have room: "has_room sample_hub 1" "\<not> has_room sample_hub 2" "has_room sample_hub 3"
    by (simp_all add: has_room_def sample_hub_def fresh_client_def saturated_queue_def make_chan_def)
  from broadcast_delivers_or_evicts[OF inv ord, of welcome_message] obtain h' where
    run: "broadcast_loop welcome_message [1, 2, 3] sample_hub = Done h'"
    and cl: "Clients h' = {c \<in> Clients sample_hub. has_room sample_hub c}"
    and each: "\<forall>c \<in> Clients sample_hub.
        if has_room sample_hub c
        then c \<in> Clients h' \<and>
             Send (objects h' c) = (Send (objects sample_hub c))\<lparr>buf := buf (Send (objects sample_hub c)) @ [welcome_message]\<rparr> \<and>
             \<not> closed (Send (objects h' c))
        else c \<notin> Clients h' \<and> closed (Send (objects h' c)) \<and>
             buf (Send (objects h' c)) = buf (Send (objects sample_hub c)) \<and> ConnClosed (objects h' c)"
    by blast
  have "Clients h' = {1, 3}"
    using cl room by (auto simp add: sample_hub_def)
  moreover have "buf (Send (objects h' 1)) = [welcome_message]"
    "buf (Send (objects h' 3)) = [welcome_message]"
    "closed (Send (objects h' 2))" "ConnClosed (objects h' 2)"
    using each room by (simp_all add: sample_hub_def fresh_client_def make_chan_def)
  ultimately show ?thesis using run by blast
qed

subsection \<open>The hand-off to the hub\<close>

lemma recordMetric_full:
  assumes "\<not> closed (Broadcast w)" "cap (Broadcast w) \<le> length (buf (Broadcast w))"
  shows "recordMetric mon st c rt e env w = Blocked"
  using assms
  by (simp add: recordMetric_def Let_def chan_send_def updateMonitorStatus_def
      split: option.splits)

text \<open>
  Claim C4, on the code: with the hub's inbound queue full, \<open>recordMetric\<close> does not
  drop the event: it waits at the send, and the probe that called it with it. The
  hand-off that drops with a warning is \<open>BroadcastToAll\<close>, which the sink does not use.
\<close>

theorem record_metric_waits_on_full_queue:
  "recordMetric sample_monitor ''up'' 200 7 [] (sample_env None (Inr 200))
     (sample_world\<lparr>Broadcast := saturated_queue\<rparr>) = Blocked \<and>
   checkEndpoint sample_monitor (sample_env None (Inr 200))
     (sample_world\<lparr>Broadcast := saturated_queue\<rparr>) = Blocked \<and>
   BroadcastToAll ''metric_update'' NoData saturated_queue = Done (saturated_queue, True)"
proof -
  have full: "\<not> closed (Broadcast (w\<lparr>Broadcast := saturated_queue\<rparr>))"
    "cap (Broadcast (w\<lparr>Broadcast := saturated_queue\<rparr>))
       \<le> length (buf (Broadcast (w\<lparr>Broadcast := saturated_queue\<rparr>)))" for w :: world
    by (simp_all add: saturated_queue_def)
  have a: "recordMetric sample_monitor st c rt e (sample_env None (Inr 200))
     (w\<lparr>Broadcast := saturated_queue\<rparr>) = Blocked" for st c rt e and w :: world
    by (rule recordMetric_full[OF full])
  have b: "checkEndpoint sample_monitor (sample_env None (Inr 200))
     (sample_world\<lparr>Broadcast := saturated_queue\<rparr>) = Blocked"
    using a[of "''up''" 200 7 "[]" "sample_world\<lparr>semaphore := (make_chan 10)\<lparr>buf := [()]\<rparr>\<rparr>"]
    by (simp add: checkEndpoint_def with_semaphore_def chan_send_def sample_world_def
        sample_env_def make_chan_def)
  have c: "BroadcastToAll ''metric_update'' NoData saturated_queue = Done (saturated_queue, True)"
    by (simp add: BroadcastToAll_def chan_try_send_def saturated_queue_def)
  from a b c show ?thesis by blast
qed

subsection \<open>One job per monitor\<close>

lemma registry_inv_init: "registry_inv NewMonitorService"
  by (simp add: registry_inv_def NewMonitorService_def)

lemma close_registered:
  assumes "registry_inv reg" "activeJobs reg monitorID = Some stopChan"
  shows "close_stop reg stopChan =
           Done (reg\<lparr>stop_chans := (stop_chans reg)(stopChan := (stop_chans reg stopChan)\<lparr>closed := True\<rparr>)\<rparr>)"
  using assms by (auto simp add: registry_inv_def close_stop_def chan_close_def)

lemma start_locked_registered:
  assumes inv: "registry_inv reg" and old: "activeJobs reg (ID mon) = Some old"
  shows "start_locked reg mon =
           Done (reg\<lparr>stop_chans := (stop_chans reg)
                        (old := (stop_chans reg old)\<lparr>closed := True\<rparr>, next_chan reg := make_chan 0),
                      activeJobs := (activeJobs reg)(ID mon \<mapsto> next_chan reg),
                      next_chan := Suc (next_chan reg),
                      pending := pending reg @ [(mon, next_chan reg)]\<rparr>)"
  using close_registered[OF inv old] old by (simp add: start_locked_def Let_def)

lemma start_locked_absent:
  assumes old: "activeJobs reg (ID mon) = None"
  shows "start_locked reg mon =
           Done (reg\<lparr>stop_chans := (stop_chans reg)(next_chan reg := make_chan 0),
                      activeJobs := (activeJobs reg)(ID mon \<mapsto> next_chan reg),
                      next_chan := Suc (next_chan reg),
                      pending := pending reg @ [(mon, next_chan reg)]\<rparr>)"
  using old by (simp add: start_locked_def Let_def)

lemma registry_invD:
  assumes "registry_inv reg"
  shows "activeJobs reg a = Some c \<Longrightarrow> c < next_chan reg"
    and "activeJobs reg a = Some c \<Longrightarrow> \<not> closed (stop_chans reg c)"
    and "activeJobs reg a = Some c \<Longrightarrow> activeJobs reg b = Some c \<Longrightarrow> a = b"
    and "(m, c) \<in> set (pending reg @ loops reg) \<Longrightarrow> c < next_chan reg"
    and "(m, c) \<in> set (pending reg @ loops reg) \<Longrightarrow> \<not> closed (stop_chans reg c) \<Longrightarrow>
           activeJobs reg (ID m) = Some c"
    and "distinct (map snd (pending reg @ loops reg))"
  using assms unfolding registry_inv_def by blast+

lemma registry_invI:
  assumes "\<And>a c. activeJobs reg a = Some c \<Longrightarrow> c < next_chan reg \<and> \<not> closed (stop_chans reg c)"
    and "\<And>a b c. activeJobs reg a = Some c \<Longrightarrow> activeJobs reg b = Some c \<Longrightarrow> a = b"
    and "\<And>m c. (m, c) \<in> set (pending reg @ loops reg) \<Longrightarrow> c < next_chan reg"
    and "\<And>m c. (m, c) \<in> set (pending reg @ loops reg) \<Longrightarrow> \<not> closed (stop_chans reg c) \<Longrightarrow>
           activeJobs reg (ID m) = Some c"
    and "distinct (map snd (pending reg @ loops reg))"
  shows "registry_inv reg"
  using assms unfolding registry_inv_def by blast

lemma start_locked_inv:
  assumes inv: "registry_inv reg"
  shows "\<exists>reg'. start_locked reg mon = Done reg' \<and> registry_inv reg'"
proof -
  define n where "n = next_chan reg"
  define sc where "sc = (case activeJobs reg (ID mon) of
      None \<Rightarrow> stop_chans reg
    | Some old \<Rightarrow> (stop_chans reg)(old := (stop_chans reg old)\<lparr>closed := True\<rparr>))"
  define reg' where "reg' = reg\<lparr>stop_chans := sc(n := make_chan 0),
                      activeJobs := (activeJobs reg)(ID mon \<mapsto> n),
                      next_chan := Suc n,
                      pending := pending reg @ [(mon, n)]\<rparr>"
  have run: "start_locked reg mon = Done reg'"
  proof (cases "activeJobs reg (ID mon)")
    case None
    then show ?thesis
      by (simp add: start_locked_absent reg'_def sc_def n_def)
  next
    case (Some old)
    then show ?thesis
      by (simp add: start_locked_registered[OF inv] reg'_def sc_def n_def)
  qed
  have sc_closed: "closed (sc c) \<longleftrightarrow> closed (stop_chans reg c) \<or> activeJobs reg (ID mon) = Some c" for c
    using registry_invD(2)[OF inv]
    by (auto simp add: sc_def split: option.splits)
  have lt: "c < n" if "activeJobs reg a = Some c" for a c
    using registry_invD(1)[OF inv that] by (simp add: n_def)
  have plt: "c < n" if "(m, c) \<in> set (pending reg @ loops reg)" for m c
    using registry_invD(4)[OF inv that] by (simp add: n_def)
  have "registry_inv reg'"
  proof (rule registry_invI)
    fix a c assume "activeJobs reg' a = Some c"
    then have c: "(a = ID mon \<and> c = n) \<or> (a \<noteq> ID mon \<and> activeJobs reg a = Some c)"
      by (auto simp add: reg'_def split: if_splits)
    then show "c < next_chan reg' \<and> \<not> closed (stop_chans reg' c)"
    proof
      assume "a = ID mon \<and> c = n"
      then show ?thesis by (simp add: reg'_def make_chan_def)
    next
      assume h: "a \<noteq> ID mon \<and> activeJobs reg a = Some c"
      then have "c < n" using lt by blast
      moreover have "\<not> closed (stop_chans reg c)" using registry_invD(2)[OF inv] h by blast
      moreover have "activeJobs reg (ID mon) \<noteq> Some c"
        using registry_invD(3)[OF inv, of a c "ID mon"] h by blast
      ultimately show ?thesis by (simp add: reg'_def sc_closed)
    qed
  next
    fix a b c assume "activeJobs reg' a = Some c" "activeJobs reg' b = Some c"
    then show "a = b"
      using lt registry_invD(3)[OF inv, of a c b]
      by (auto simp add: reg'_def split: if_splits)
  next
    fix m c assume "(m, c) \<in> set (pending reg' @ loops reg')"
    then have "(m, c) = (mon, n) \<or> (m, c) \<in> set (pending reg @ loops reg)"
      by (auto simp add: reg'_def)
    then show "c < next_chan reg'"
      using plt by (auto simp add: reg'_def less_Suc_eq)
  next
    fix m c assume mem: "(m, c) \<in> set (pending reg' @ loops reg')"
      and opn: "\<not> closed (stop_chans reg' c)"
    from mem have "(m, c) = (mon, n) \<or> (m, c) \<in> set (pending reg @ loops reg)"
      by (auto simp add: reg'_def)
    then show "activeJobs reg' (ID m) = Some c"
    proof
      assume "(m, c) = (mon, n)"
      then show ?thesis by (simp add: reg'_def)
    next
      assume old: "(m, c) \<in> set (pending reg @ loops reg)"
      then have "c \<noteq> n" using plt by blast
      with opn have o: "\<not> closed (stop_chans reg c)" "activeJobs reg (ID mon) \<noteq> Some c"
        by (simp_all add: reg'_def sc_closed)
      from registry_invD(5)[OF inv old o(1)] have "activeJobs reg (ID m) = Some c" .
      with o(2) show ?thesis by (auto simp add: reg'_def)
    qed
  next
    have "n \<notin> snd ` set (pending reg @ loops reg)"
      using plt by fastforce
    then show "distinct (map snd (pending reg' @ loops reg'))"
      using registry_invD(6)[OF inv] by (auto simp add: reg'_def)
  qed
  with run show ?thesis by blast
qed

lemma start_go_mset:
  "mset (pending (start_go reg k) @ loops (start_go reg k)) = mset (pending reg @ loops reg)"
proof (cases "k < length (pending reg)")
  case True
  have "mset (pending reg) = mset (take k (pending reg) @ pending reg ! k # drop (Suc k) (pending reg))"
    using id_take_nth_drop[OF True] by simp
  then show ?thesis using True by (simp add: start_go_def)
next
  case False
  then show ?thesis by (simp add: start_go_def)
qed

lemma start_go_inv:
  assumes inv: "registry_inv reg"
  shows "registry_inv (start_go reg k)"
proof -
  have s: "set (pending (start_go reg k) @ loops (start_go reg k)) = set (pending reg @ loops reg)"
    using start_go_mset[of reg k] by (metis set_mset_mset)
  have m: "mset (map snd (pending (start_go reg k) @ loops (start_go reg k)))
         = mset (map snd (pending reg @ loops reg))"
    using start_go_mset[of reg k] by (metis mset_map)
  have d: "distinct (map snd (pending (start_go reg k) @ loops (start_go reg k)))"
    using registry_invD(6)[OF inv] m by (metis mset_eq_imp_distinct_iff)
  have f: "activeJobs (start_go reg k) = activeJobs reg" "stop_chans (start_go reg k) = stop_chans reg"
    "next_chan (start_go reg k) = next_chan reg"
    by (simp_all add: start_go_def)
  show ?thesis
    using inv d unfolding registry_inv_def s f by blast
qed

lemma stop_registered:
  assumes inv: "registry_inv reg" and old: "activeJobs reg monitorID = Some old"
  shows "stopMonitorJob reg monitorID =
           Done (reg\<lparr>stop_chans := (stop_chans reg)(old := (stop_chans reg old)\<lparr>closed := True\<rparr>),
                      activeJobs := (activeJobs reg)(monitorID := None)\<rparr>)"
  using close_registered[OF inv old] old by (simp add: stopMonitorJob_def)

lemma stop_absent:
  assumes "activeJobs reg monitorID = None"
  shows "stopMonitorJob reg monitorID = Done reg"
  using assms by (simp add: stopMonitorJob_def)

lemma stopMonitorJob_inv:
  assumes inv: "registry_inv reg"
  shows "\<exists>reg'. stopMonitorJob reg monitorID = Done reg' \<and> registry_inv reg'"
proof (cases "activeJobs reg monitorID")
  case None
  then show ?thesis using inv by (simp add: stop_absent)
next
  case (Some old)
  define reg' where "reg' = reg\<lparr>stop_chans := (stop_chans reg)(old := (stop_chans reg old)\<lparr>closed := True\<rparr>),
                      activeJobs := (activeJobs reg)(monitorID := None)\<rparr>"
  have run: "stopMonitorJob reg monitorID = Done reg'"
    by (simp add: stop_registered[OF inv Some] reg'_def)
  have "registry_inv reg'"
  proof (rule registry_invI)
    fix a c assume h: "activeJobs reg' a = Some c"
    then have a: "a \<noteq> monitorID" "activeJobs reg a = Some c"
      by (auto simp add: reg'_def split: if_splits)
    then have "c \<noteq> old" using registry_invD(3)[OF inv, of a c monitorID] Some by blast
    then show "c < next_chan reg' \<and> \<not> closed (stop_chans reg' c)"
      using registry_invD(1,2)[OF inv a(2)] by (simp add: reg'_def)
  next
    fix a b c assume "activeJobs reg' a = Some c" "activeJobs reg' b = Some c"
    then show "a = b"
      using registry_invD(3)[OF inv, of a c b] by (auto simp add: reg'_def split: if_splits)
  next
    fix m c assume "(m, c) \<in> set (pending reg' @ loops reg')"
    then show "c < next_chan reg'"
      using registry_invD(4)[OF inv, of m c] by (simp add: reg'_def)
  next
    fix m c assume mem: "(m, c) \<in> set (pending reg' @ loops reg')"
      and opn: "\<not> closed (stop_chans reg' c)"
    from mem have mem': "(m, c) \<in> set (pending reg @ loops reg)" by (simp add: reg'_def)
    from opn have o: "c \<noteq> old" "\<not> closed (stop_chans reg c)"
      by (auto simp add: reg'_def split: if_splits)
    from registry_invD(5)[OF inv mem' o(2)] have r: "activeJobs reg (ID m) = Some c" .
    with o(1) Some have "ID m \<noteq> monitorID" by auto
    with r show "activeJobs reg' (ID m) = Some c" by (simp add: reg'_def)
  next
    show "distinct (map snd (pending reg' @ loops reg'))"
      using registry_invD(6)[OF inv] by (simp add: reg'_def)
  qed
  with run show ?thesis by blast
qed

lemma job_step_inv:
  assumes "registry_inv reg"
  shows "\<exists>reg'. job_step reg s = Done reg' \<and> registry_inv reg'"
  using assms start_locked_inv start_go_inv stopMonitorJob_inv
  by (cases s) (simp_all add: job_step_def)

lemma run_jobs_inv:
  assumes "registry_inv reg"
  shows "\<exists>reg'. run_jobs reg steps = Done reg' \<and> registry_inv reg'"
  using assms
proof (induction steps arbitrary: reg)
  case Nil
  then show ?case by simp
next
  case (Cons s steps)
  from job_step_inv[OF Cons.prems, of s] obtain reg1 where
    "job_step reg s = Done reg1" "registry_inv reg1" by blast
  with Cons.IH[of reg1] show ?case by simp
qed

lemma distinct_same_snd:
  assumes "distinct (map snd xs)" "\<forall>x \<in> set xs. snd x = c"
  shows "length xs \<le> 1"
  using assms by (cases xs rule: list.exhaust; cases "tl xs") auto

lemma live_jobs_registered:
  assumes inv: "registry_inv reg"
  shows "length (live_jobs reg monitorID) \<le> 1"
    and "\<forall>(m, c) \<in> set (live_jobs reg monitorID). activeJobs reg monitorID = Some c"
proof -
  show r: "\<forall>(m, c) \<in> set (live_jobs reg monitorID). activeJobs reg monitorID = Some c"
    using registry_invD(5)[OF inv] by (auto simp add: live_jobs_def)
  have d: "distinct (map snd (live_jobs reg monitorID))"
    unfolding live_jobs_def using registry_invD(6)[OF inv] by (rule distinct_map_filter)
  show "length (live_jobs reg monitorID) \<le> 1"
  proof (cases "activeJobs reg monitorID")
    case None
    with r have "live_jobs reg monitorID = []" by (cases "live_jobs reg monitorID") auto
    then show ?thesis by simp
  next
    case (Some c)
    with r have "\<forall>x \<in> set (live_jobs reg monitorID). snd x = c" by auto
    with d show ?thesis by (rule distinct_same_snd)
  qed
qed

text \<open>
  Claim C3. Whatever the interleaving of starts, launches and stops on a fresh registry,
  no step panics, and every monitor id has at most one scheduler loop whose stop channel
  is open: the one whose channel the registry maps the id to. A start on an id that has
  a job closes the old stop channel and installs a fresh, open one in the same locked
  step, after which the new loop is the only one of that id not cancelled.
\<close>

theorem one_loop_per_monitor:
  "\<exists>reg. run_jobs NewMonitorService steps = Done reg \<and>
     (\<forall>monitorID. length (live_jobs reg monitorID) \<le> 1 \<and>
        (\<forall>(m, c) \<in> set (live_jobs reg monitorID). activeJobs reg monitorID = Some c)) \<and>
     (\<forall>mon old. activeJobs reg (ID mon) = Some old \<longrightarrow>
        (\<exists>reg'. start_locked reg mon = Done reg' \<and>
           closed (stop_chans reg' old) \<and>
           activeJobs reg' (ID mon) = Some (next_chan reg) \<and> next_chan reg \<noteq> old \<and>
           \<not> closed (stop_chans reg' (next_chan reg)) \<and>
           live_jobs reg' (ID mon) = [(mon, next_chan reg)]))"
proof -
  from run_jobs_inv[OF registry_inv_init, of steps] obtain reg where
    run: "run_jobs NewMonitorService steps = Done reg" and inv: "registry_inv reg" by blast
  have one: "\<forall>monitorID. length (live_jobs reg monitorID) \<le> 1 \<and>
        (\<forall>(m, c) \<in> set (live_jobs reg monitorID). activeJobs reg monitorID = Some c)"
    using live_jobs_registered[OF inv] by blast
  have restart: "\<exists>reg'. start_locked reg mon = Done reg' \<and>
           closed (stop_chans reg' old) \<and>
           activeJobs reg' (ID mon) = Some (next_chan reg) \<and> next_chan reg \<noteq> old \<and>
           \<not> closed (stop_chans reg' (next_chan reg)) \<and>
           live_jobs reg' (ID mon) = [(mon, next_chan reg)]"
    if old: "activeJobs reg (ID mon) = Some old" for mon old
  proof -
    let ?reg' = "reg\<lparr>stop_chans := (stop_chans reg)
                        (old := (stop_chans reg old)\<lparr>closed := True\<rparr>, next_chan reg := make_chan 0),
                      activeJobs := (activeJobs reg)(ID mon \<mapsto> next_chan reg),
                      next_chan := Suc (next_chan reg),
                      pending := pending reg @ [(mon, next_chan reg)]\<rparr>"
    have run': "start_locked reg mon = Done ?reg'"
      by (rule start_locked_registered[OF inv old])
    from start_locked_inv[OF inv, of mon] run' have inv': "registry_inv ?reg'" by simp
    have ne: "next_chan reg \<noteq> old"
      using registry_invD(1)[OF inv old] by simp
    have mem: "(mon, next_chan reg) \<in> set (live_jobs ?reg' (ID mon))"
      by (simp add: live_jobs_def make_chan_def)
    have "length (live_jobs ?reg' (ID mon)) \<le> 1"
      by (rule live_jobs_registered(1)[OF inv'])
    with mem have "live_jobs ?reg' (ID mon) = [(mon, next_chan reg)]"
      by (cases "live_jobs ?reg' (ID mon)") auto
    with run' ne show ?thesis by (simp add: make_chan_def)
  qed
  from run one restart show ?thesis by blast
qed

theorem one_loop_per_monitor_witness:
  "\<exists>reg. run_jobs NewMonitorService
       [StartLocked sample_monitor, StartGo 0, StartLocked sample_monitor, StartGo 0] = Done reg \<and>
     activeJobs reg ''65f0a1b2c3d4e5f601234567'' = Some 1 \<and>
     live_jobs reg ''65f0a1b2c3d4e5f601234567'' = [(sample_monitor, 1)] \<and>
     closed (stop_chans reg 0) \<and>
     loops reg = [(sample_monitor, 0), (sample_monitor, 1)]"
  using one_loop_per_monitor
    [of "[StartLocked sample_monitor, StartGo 0, StartLocked sample_monitor, StartGo 0]"]
  by (simp add: NewMonitorService_def job_step_def start_locked_def start_go_def close_stop_def
      chan_close_def make_chan_def live_jobs_def sample_monitor_def Let_def)

subsection \<open>Creating and deleting monitors\<close>

lemma ToMonitor_URL: "URL (ToMonitor now req) = req_URL req"
  by (simp add: ToMonitor_def Validate_def Let_def)

text \<open>
  Claim C7. While the store answers its count and insert, \<open>CreateMonitor\<close> returns the
  already-exists error exactly when some stored monitor has the request's URL; no error
  of \<open>CreateMonitor\<close> changes the collection; and the handler answers 409 Conflict
  exactly in that case, leaving registry and collection as they were.
\<close>

theorem create_monitor_duplicate_url:
  assumes "db_count_error env = None" "db_insert_error env = None"
  shows "(fst (CreateMonitor env coll mon) = Inl (already_exists (URL mon))
            \<longleftrightarrow> (\<exists>m \<in> set coll. URL m = URL mon)) \<and>
         (\<forall>err. fst (CreateMonitor env coll mon) = Inl err \<longrightarrow> snd (CreateMonitor env coll mon) = coll) \<and>
         ((\<exists>m \<in> set coll. URL m = req_URL req) \<longrightarrow>
            CreateMonitor_handler env now (Inr req) (reg, coll) = Done (409, reg, coll)) \<and>
         (\<forall>reg' coll'. CreateMonitor_handler env now (Inr req) (reg, coll) = Done (409, reg', coll')
            \<longrightarrow> (\<exists>m \<in> set coll. URL m = req_URL req))"
proof (intro conjI)
  show "fst (CreateMonitor env coll mon) = Inl (already_exists (URL mon))
            \<longleftrightarrow> (\<exists>m \<in> set coll. URL m = URL mon)"
    using assms by (simp add: CreateMonitor_def Let_def filter_empty_conv)
  show "\<forall>err. fst (CreateMonitor env coll mon) = Inl err \<longrightarrow> snd (CreateMonitor env coll mon) = coll"
    by (simp add: CreateMonitor_def Let_def split: option.splits)
  show "(\<exists>m \<in> set coll. URL m = req_URL req) \<longrightarrow>
            CreateMonitor_handler env now (Inr req) (reg, coll) = Done (409, reg, coll)"
    using assms
    by (simp add: CreateMonitor_handler_def CreateMonitor_def Let_def filter_empty_conv ToMonitor_URL
        already_exists_def)
  show "\<forall>reg' coll'. CreateMonitor_handler env now (Inr req) (reg, coll) = Done (409, reg', coll')
            \<longrightarrow> (\<exists>m \<in> set coll. URL m = req_URL req)"
    using assms
    by (auto simp add: CreateMonitor_handler_def CreateMonitor_def Let_def filter_empty_conv ToMonitor_URL
        split: if_splits go.splits)
qed

theorem create_monitor_duplicate_url_witness:
  "fst (CreateMonitor sample_store [sample_monitor] (ToMonitor 9 sample_request))
     = Inl ''monitor with URL http://x already exists'' \<and>
   CreateMonitor_handler sample_store 9 (Inr sample_request) (NewMonitorService, [sample_monitor])
     = Done (409, NewMonitorService, [sample_monitor]) \<and>
   fst (CreateMonitor sample_store [] (ToMonitor 9 sample_request))
     = Inr ((ToMonitor 9 sample_request)\<lparr>ID := ''65f0a1b2c3d4e5f6012345aa''\<rparr>)"
proof -
  have ok: "db_count_error sample_store = None" "db_insert_error sample_store = None"
    by (simp_all add: sample_store_def)
  have dup: "\<exists>m \<in> set [sample_monitor]. URL m = URL (ToMonitor 9 sample_request)"
    "\<exists>m \<in> set [sample_monitor]. URL m = req_URL sample_request"
    by (simp_all add: ToMonitor_URL sample_monitor_def sample_request_def)
  have url: "already_exists (URL (ToMonitor 9 sample_request)) = ''monitor with URL http://x already exists''"
    by (simp add: already_exists_def ToMonitor_URL sample_request_def)
  from create_monitor_duplicate_url[OF ok, of "[sample_monitor]" "ToMonitor 9 sample_request"
      sample_request 9 NewMonitorService] dup url
  have "fst (CreateMonitor sample_store [sample_monitor] (ToMonitor 9 sample_request))
     = Inl ''monitor with URL http://x already exists''"
    "CreateMonitor_handler sample_store 9 (Inr sample_request) (NewMonitorService, [sample_monitor])
     = Done (409, NewMonitorService, [sample_monitor])"
    by simp_all
  moreover have "fst (CreateMonitor sample_store [] (ToMonitor 9 sample_request))
     = Inr ((ToMonitor 9 sample_request)\<lparr>ID := ''65f0a1b2c3d4e5f6012345aa''\<rparr>)"
    by (simp add: CreateMonitor_def sample_store_def Let_def)
  ultimately show ?thesis by blast
qed

lemma DeleteOne_count:
  "fst (DeleteOne monitorID coll) = 0 \<longleftrightarrow> (\<forall>m \<in> set coll. ID m \<noteq> monitorID)"
  by (induction coll) (auto split: prod.splits)

text \<open>
  Claim C8. On a registry reached by starts and stops, \<open>DeleteMonitor\<close> always
  completes and always stops the job of the id first: afterwards the id has no
  registered job and no loop that is not cancelled, a job that was registered has its
  stop channel closed, a registry without a job for the id is unchanged, and stopping
  again changes nothing. While the store answers the delete, the result is the
  not-found error exactly when no stored monitor has the id.
\<close>

theorem delete_monitor_not_found_and_stop:
  assumes inv: "registry_inv reg"
  shows "\<exists>res reg' coll'.
      DeleteMonitor env (reg, coll) monitorID = Done (res, reg', coll') \<and>
      stopMonitorJob reg monitorID = Done reg' \<and>
      activeJobs reg' monitorID = None \<and> live_jobs reg' monitorID = [] \<and>
      (\<forall>stopChan. activeJobs reg monitorID = Some stopChan \<longrightarrow> closed (stop_chans reg' stopChan)) \<and>
      (activeJobs reg monitorID = None \<longrightarrow> reg' = reg) \<and>
      stopMonitorJob reg' monitorID = Done reg' \<and>
      (db_delete_error env = None \<longrightarrow>
         (res = Some ''monitor not found'' \<longleftrightarrow> (\<forall>m \<in> set coll. ID m \<noteq> monitorID)) \<and>
         (res = None \<longleftrightarrow> (\<exists>m \<in> set coll. ID m = monitorID)))"
proof -
  from stopMonitorJob_inv[OF inv, of monitorID] obtain reg' where
    stop: "stopMonitorJob reg monitorID = Done reg'" and inv': "registry_inv reg'" by blast
  have none: "activeJobs reg' monitorID = None"
    using stop close_registered[OF inv]
    by (cases "activeJobs reg monitorID") (auto simp add: stopMonitorJob_def)
  have live: "live_jobs reg' monitorID = []"
    using live_jobs_registered(2)[OF inv', of monitorID] none
    by (cases "live_jobs reg' monitorID") auto
  have cl: "\<forall>stopChan. activeJobs reg monitorID = Some stopChan \<longrightarrow> closed (stop_chans reg' stopChan)"
    using stop stop_registered[OF inv] by auto
  have same: "activeJobs reg monitorID = None \<longrightarrow> reg' = reg"
    using stop by (auto simp add: stop_absent)
  have again: "stopMonitorJob reg' monitorID = Done reg'"
    using none by (rule stop_absent)
  obtain n coll' where del: "DeleteOne monitorID coll = (n, coll')" by (cases "DeleteOne monitorID coll")
  have n0: "n = 0 \<longleftrightarrow> (\<forall>m \<in> set coll. ID m \<noteq> monitorID)"
    using DeleteOne_count[of monitorID coll] del by simp
  show ?thesis
  proof (cases "db_delete_error env")
    case (Some err)
    with stop none live cl same again show ?thesis
      by (simp add: DeleteMonitor_def)
  next
    case None
    with stop del have run: "DeleteMonitor env (reg, coll) monitorID =
        Done (if n = 0 then Some ''monitor not found'' else None, reg', coll')"
      by (simp add: DeleteMonitor_def)
    show ?thesis
      unfolding run using stop none live cl same again n0 None by auto
  qed
qed

lemma startMonitorJob_inv:
  assumes "registry_inv reg"
  shows "\<exists>reg'. startMonitorJob reg mon = Done reg' \<and> registry_inv reg'"
  using start_locked_inv[OF assms, of mon] start_go_inv
  by (auto simp add: startMonitorJob_def)

lemma sample_registry_started:
  "startMonitorJob NewMonitorService sample_monitor = Done sample_registry"
  by (simp add: startMonitorJob_def start_locked_def start_go_def NewMonitorService_def
      sample_registry_def sample_monitor_def Let_def fun_upd_idem)

lemma sample_registry_inv: "registry_inv sample_registry"
  using startMonitorJob_inv[OF registry_inv_init, of sample_monitor]
  by (simp add: sample_registry_started)

theorem delete_monitor_not_found_and_stop_witness:
  "(\<exists>reg'. DeleteMonitor sample_store (sample_registry, [sample_monitor]) ''65f0a1b2c3d4e5f601234567''
             = Done (None, reg', []) \<and>
           activeJobs reg' ''65f0a1b2c3d4e5f601234567'' = None \<and> closed (stop_chans reg' 0) \<and>
           DeleteMonitor sample_store (reg', []) ''65f0a1b2c3d4e5f601234567'' = Done (Some ''monitor not found'', reg', []))"
proof -
  from delete_monitor_not_found_and_stop[OF sample_registry_inv, of sample_store "[sample_monitor]" "''65f0a1b2c3d4e5f601234567''"]
  obtain res reg' coll' where
    run: "DeleteMonitor sample_store (sample_registry, [sample_monitor]) ''65f0a1b2c3d4e5f601234567'' = Done (res, reg', coll')"
    and stop: "stopMonitorJob sample_registry ''65f0a1b2c3d4e5f601234567'' = Done reg'"
    and none: "activeJobs reg' ''65f0a1b2c3d4e5f601234567'' = None"
    and cl: "\<forall>stopChan. activeJobs sample_registry ''65f0a1b2c3d4e5f601234567'' = Some stopChan \<longrightarrow> closed (stop_chans reg' stopChan)"
    and again: "stopMonitorJob reg' ''65f0a1b2c3d4e5f601234567'' = Done reg'"
    by blast
  have "res = None \<and> coll' = []"
    using run stop by (simp add: DeleteMonitor_def sample_store_def sample_monitor_def)
  moreover have "closed (stop_chans reg' 0)"
    using cl by (simp add: sample_registry_def)
  moreover have "DeleteMonitor sample_store (reg', []) ''65f0a1b2c3d4e5f601234567'' = Done (Some ''monitor not found'', reg', [])"
    using again by (simp add: DeleteMonitor_def sample_store_def)
  ultimately show ?thesis using run none by blast
qed

subsection \<open>The metrics query and its summary\<close>

lemma wrap64_id: "- (2 ^ 63) \<le> x \<Longrightarrow> x < 2 ^ 63 \<Longrightarrow> wrap64 x = x"
  by (simp add: wrap64_def)

lemma lookback: 
  assumes "1 \<le> hours" "hours \<le> 168"
  shows "duration_mul (- hours) Hour = - (hours * Hour)"
proof -
  have a: "wrap64 (- hours) = - hours"
    using assms by (intro wrap64_id) simp_all
  have "hours * 3600000000000 \<le> 168 * 3600000000000"
    using assms by (intro mult_right_mono) simp_all
  moreover have "0 \<le> hours * 3600000000000" using assms by simp
  ultimately have "wrap64 (- hours * 3600000000000) = - hours * 3600000000000"
    by (intro wrap64_id) simp_all
  with a show ?thesis by (simp add: duration_mul_def Hour_def Second_def)
qed

lemma Atoi_24: "Atoi ''24'' = Some 24"
  by (simp add: Atoi_def is_digit_def digits_value_def)

lemma clamp_hours_range: "1 \<le> clamp_hours p \<and> clamp_hours p \<le> 168"
  by (simp add: clamp_hours_def split: option.splits)

lemma newest_first:
  fixes ys :: "metric list"
  assumes "ys = sort_key (\<lambda>m. - CheckedAt m) xs"
  shows "sorted_wrt (\<lambda>a b. CheckedAt b \<le> CheckedAt a) (take n ys)"
    and "mset (take n ys) \<subseteq># mset xs"
    and "\<forall>y \<in># mset xs - mset (take n ys). \<forall>x \<in> set (take n ys). CheckedAt y \<le> CheckedAt x"
    and "length (take n ys) = min n (length xs)"
proof -
  have srt: "sorted (map (\<lambda>m. - CheckedAt m) ys)" using assms by simp
  have ms: "mset ys = mset xs" using assms by simp
  have split: "take n ys @ drop n ys = ys" by simp
  have "sorted (map (\<lambda>m. - CheckedAt m) (take n ys))"
    using srt by (metis sorted_append map_append split)
  then show "sorted_wrt (\<lambda>a b. CheckedAt b \<le> CheckedAt a) (take n ys)"
    by (simp add: sorted_map sorted_wrt_iff_nth_less)
  have parts: "mset xs = mset (take n ys) + mset (drop n ys)"
    using ms by (metis mset_append split)
  then show "mset (take n ys) \<subseteq># mset xs" by simp
  have rest: "mset xs - mset (take n ys) = mset (drop n ys)"
    using parts by simp
  have "\<forall>x \<in> set (take n ys). \<forall>y \<in> set (drop n ys). - CheckedAt x \<le> - CheckedAt y"
    using srt by (metis (no_types, lifting) sorted_append map_append split imageI set_map)
  then show "\<forall>y \<in># mset xs - mset (take n ys). \<forall>x \<in> set (take n ys). CheckedAt y \<le> CheckedAt x"
    unfolding rest by auto
  show "length (take n ys) = min n (length xs)"
    using assms by (simp add: min.commute)
qed

text \<open>
  Claim C9. For a well-formed id and a store that answers, the metrics handler uses a
  lookback between 1 and 168 hours: the \<open>hours\<close> parameter when it parses to a
  number in that range, and 24 when it is absent, does not parse, or is below 1 or
  above 168. It returns at most 1000 rows, newest first; they are samples of that
  monitor within the lookback, as many as there are up to 1000, and no sample of the
  window left out is newer than a returned one.
\<close>

theorem get_metrics_bounded:
  assumes "ObjectIDFromHex idParam = Some objectID"
      and "db_find_error env = None" "db_all_error env = None"
  shows "\<exists>rows hours.
      GetMetrics_handler env now coll idParam hoursQuery
        = OK rows (calculateMetricsSummary rows) hours \<and>
      GetMetrics env now coll objectID hours = Inr rows \<and>
      1 \<le> hours \<and> hours \<le> 168 \<and>
      hours = (case hoursQuery of
                 None \<Rightarrow> 24
               | Some v \<Rightarrow> (case Atoi v of
                             None \<Rightarrow> 24
                           | Some h \<Rightarrow> if h < 1 \<or> 168 < h then 24 else h)) \<and>
      length rows \<le> 1000 \<and>
      sorted_wrt (\<lambda>a b. CheckedAt b \<le> CheckedAt a) rows \<and>
      (let window = filter (\<lambda>m. MonitorID m = objectID \<and> now - hours * Hour \<le> CheckedAt m) coll
       in length rows = min 1000 (length window) \<and>
          mset rows \<subseteq># mset window \<and>
          (\<forall>y \<in># mset window - mset rows. \<forall>x \<in> set rows. CheckedAt y \<le> CheckedAt x))"
proof -
  define hours where "hours = clamp_hours (case hoursQuery of None \<Rightarrow> ''24'' | Some v \<Rightarrow> v)"
  define window where
    "window = filter (\<lambda>m. MonitorID m = objectID \<and> now - hours * Hour \<le> CheckedAt m) coll"
  define rows where "rows = take 1000 (sort_key (\<lambda>m. - CheckedAt m) window)"
  have rng: "1 \<le> hours" "hours \<le> 168"
    using clamp_hours_range by (simp_all add: hours_def)
  have start: "now + duration_mul (- hours) Hour = now - hours * Hour"
    using lookback[OF rng] by simp
  have svc: "GetMetrics env now coll objectID hours = Inr rows"
    using assms(2,3) by (simp add: GetMetrics_def start Let_def rows_def window_def)
  have hnd: "GetMetrics_handler env now coll idParam hoursQuery
        = OK rows (calculateMetricsSummary rows) hours"
    using assms(1) svc by (simp add: GetMetrics_handler_def Let_def hours_def)
  have hrs: "hours = (case hoursQuery of
                 None \<Rightarrow> 24
               | Some v \<Rightarrow> (case Atoi v of
                             None \<Rightarrow> 24
                           | Some h \<Rightarrow> if h < 1 \<or> 168 < h then 24 else h))"
    by (simp add: hours_def clamp_hours_def Atoi_24 split: option.splits)
  note nf = newest_first[OF refl, where n = 1000 and xs = window, folded rows_def]
  have len: "length rows \<le> 1000" by (simp add: rows_def)
  show ?thesis
    apply (rule exI[where x = rows], rule exI[where x = hours])
    unfolding Let_def window_def[symmetric]
    using hnd svc rng hrs len nf by blast
qed

lemma sample_object_id:
  "ObjectIDFromHex ''65F0A1B2C3D4E5F601234567'' = Some ''65f0a1b2c3d4e5f601234567''"
  by (simp add: ObjectIDFromHex_def lower_hex_def)

lemma Atoi_500: "Atoi ''500'' = Some 500"
  by (simp add: Atoi_def is_digit_def digits_value_def)

theorem get_metrics_bounded_witness:
  "\<exists>summary.
     GetMetrics_handler sample_store (100 * Hour)
       [sample_metric ''up'' 12 (98 * Hour), sample_metric ''down'' 30 (10 * Hour),
        sample_metric ''up'' 20 (99 * Hour)]
       ''65F0A1B2C3D4E5F601234567'' (Some ''500'')
     = OK [sample_metric ''up'' 20 (99 * Hour), sample_metric ''up'' 12 (98 * Hour)] summary 24"
proof -
  have ok: "db_find_error sample_store = None" "db_all_error sample_store = None"
    by (simp_all add: sample_store_def)
  from get_metrics_bounded[OF sample_object_id ok, of "100 * Hour"
      "[sample_metric ''up'' 12 (98 * Hour), sample_metric ''down'' 30 (10 * Hour),
        sample_metric ''up'' 20 (99 * Hour)]" "Some ''500''"]
  obtain rows hours where
    hnd: "GetMetrics_handler sample_store (100 * Hour)
       [sample_metric ''up'' 12 (98 * Hour), sample_metric ''down'' 30 (10 * Hour),
        sample_metric ''up'' 20 (99 * Hour)]
       ''65F0A1B2C3D4E5F601234567'' (Some ''500'') = OK rows (calculateMetricsSummary rows) hours"
    and svc: "GetMetrics sample_store (100 * Hour)
       [sample_metric ''up'' 12 (98 * Hour), sample_metric ''down'' 30 (10 * Hour),
        sample_metric ''up'' 20 (99 * Hour)] ''65f0a1b2c3d4e5f601234567'' hours = Inr rows"
    and hrs: "hours = (case Some ''500'' of
                 None \<Rightarrow> 24
               | Some v \<Rightarrow> (case Atoi v of
                             None \<Rightarrow> 24
                           | Some h \<Rightarrow> if h < 1 \<or> 168 < h then 24 else h))"
    by blast
  have h24: "hours = 24" using hrs by (simp add: Atoi_500)
  have "duration_mul (- 24) Hour = - (24 * Hour)" by (rule lookback) simp_all
  then have "rows = [sample_metric ''up'' 20 (99 * Hour), sample_metric ''up'' 12 (98 * Hour)]"
    using svc unfolding h24
    by (simp add: GetMetrics_def sample_store_def sample_metric_def Hour_def Second_def Let_def)
  with hnd h24 show ?thesis by blast
qed

lemma wrap64_add: "wrap64 (wrap64 a + b) = wrap64 (a + b)"
proof -
  define H M :: int where "H = 2 ^ 63" and "M = 2 ^ 64"
  have w: "wrap64 x = (x + H) mod M - H" for x
    by (simp add: wrap64_def H_def M_def)
  have "wrap64 a + b + H = (a + H) mod M + b"
    by (simp add: w)
  then have "(wrap64 a + b + H) mod M = ((a + H) mod M + b) mod M"
    by (rule arg_cong)
  also have "\<dots> = (a + H + b) mod M"
    by (rule mod_add_left_eq)
  also have "a + H + b = a + b + H"
    by (simp only: add.assoc add.commute[of H b])
  finally show ?thesis
    unfolding w by (rule arg_cong)
qed

lemma Min_insert_min:
  fixes a b :: int
  assumes "finite S"
  shows "Min (insert (min a b) S) = Min (insert a (insert b S))"
proof (cases "S = {}")
  case True
  then show ?thesis by simp
next
  case False
  with assms show ?thesis by (simp add: min.assoc)
qed

lemma Max_insert_max:
  fixes a b :: int
  assumes "finite S"
  shows "Max (insert (max a b) S) = Max (insert a (insert b S))"
proof (cases "S = {}")
  case True
  then show ?thesis by simp
next
  case False
  with assms show ?thesis by (simp add: max.assoc)
qed

lemma summary_loop_result:
  "summary_loop ms (s, f, t, mn, mx) =
     (s + int (length (filter (\<lambda>m. Status m = ''up'') ms)),
      f + int (length (filter (\<lambda>m. Status m \<noteq> ''up'') ms)),
      (if ms = [] then t else wrap64 (t + sum_list (map ResponseTime ms))),
      Min (insert mn (ResponseTime ` set ms)),
      Max (insert mx (ResponseTime ` set ms)))"
proof (induction ms arbitrary: s f t mn mx)
  case Nil
  then show ?case by simp
next
  case (Cons m ms)
  have mn: "(if ResponseTime m < mn then ResponseTime m else mn) = min mn (ResponseTime m)"
    by (simp add: min_def)
  have mx: "(if ResponseTime m > mx then ResponseTime m else mx) = max mx (ResponseTime m)"
    by (simp add: max_def)
  have fin: "finite (ResponseTime ` set ms)" by simp
  have tot: "(if ms = [] then wrap64 (t + ResponseTime m)
              else wrap64 (wrap64 (t + ResponseTime m) + sum_list (map ResponseTime ms)))
            = wrap64 (t + sum_list (map ResponseTime (m # ms)))"
    by (simp add: wrap64_add add.assoc)
  show ?case
    unfolding summary_loop.simps Cons.IH mn mx Min_insert_min[OF fin] Max_insert_max[OF fin] tot
    by simp
qed

subsection \<open>Rolling uptime and the metrics summary\<close>

lemma uptime_8_of_10: "f64_mul (f64_div (f64_of_int 8) (f64_of_int 10)) 100 = 80"
  by code_simp

lemma uptime_7_of_100:
  "f64_mul (f64_div (f64_of_int 7) (f64_of_int 100)) 100 = 7881299347898369 / 1125899906842624"
  by code_simp

lemma calculateUptimePercentage_value:
  "calculateUptimePercentage env now coll monitorID =
     (let window = filter (\<lambda>m. MonitorID m = monitorID \<and> now - 24 * Hour \<le> CheckedAt m \<and> decodes env m) coll;
          n = int (length window);
          d = int (length (filter (\<lambda>m. Status m = ''down'') window))
      in if find_error env \<noteq> None \<or> n = 0 then 100
         else f64_mul (f64_div (f64_of_int (n - d)) (f64_of_int n)) 100)"
proof -
  let ?P = "\<lambda>m. MonitorID m = monitorID \<and> now - 24 * Hour \<le> CheckedAt m"
  let ?W = "filter (decodes env) (filter ?P coll)"
  have W: "?W = filter (\<lambda>m. MonitorID m = monitorID \<and> now - 24 * Hour \<le> CheckedAt m \<and> decodes env m) coll"
    by (simp add: conj_commute conj_left_commute cong: conj_cong)
  have start: "now + duration_mul (- 24) Hour = now - 24 * Hour"
    unfolding day_before by (simp add: Hour_def Second_def)
  show ?thesis
    unfolding calculateUptimePercentage_def Find_metrics_def Let_def start W[symmetric]
    by (cases "find_error env") (simp_all add: uptime_loop_counts)
qed

lemma unit_snoc: "(xs :: unit list) @ [()] = () # xs"
  by (induction xs) simp_all

lemma with_semaphore_restores:
  assumes "\<not> closed (semaphore w)" "length (buf (semaphore w)) < cap (semaphore w)"
      and "body (w\<lparr>semaphore := (semaphore w)\<lparr>buf := buf (semaphore w) @ [()]\<rparr>\<rparr>) = Done w'"
      and "semaphore w' = (semaphore w)\<lparr>buf := buf (semaphore w) @ [()]\<rparr>"
  shows "with_semaphore body w = Done (w'\<lparr>semaphore := semaphore w\<rparr>)"
  using assms
  by (simp add: with_semaphore_def chan_send_def chan_recv_def unit_snoc)

lemma checkEndpoint_classify:
  "checkEndpoint mon env =
     (case classify env of (st, c, rt, e) \<Rightarrow> with_semaphore (recordMetric mon st c rt e env))"
  by (simp add: checkEndpoint_def classify_def Let_def split: option.splits sum.splits)

lemma checkEndpoint_completes:
  assumes slot: "\<not> closed (semaphore w)" "length (buf (semaphore w)) < cap (semaphore w)"
      and room: "\<not> closed (Broadcast w)" "length (buf (Broadcast w)) < cap (Broadcast w)"
  shows "\<exists>w' u st c rt e.
      checkEndpoint mon env w = Done w' \<and>
      semaphore w' = semaphore w \<and>
      cap (Broadcast w') = cap (Broadcast w) \<and> closed (Broadcast w') = closed (Broadcast w) \<and>
      buf (Broadcast w') = buf (Broadcast w) @
        [\<lparr>Type = ''metric_update'', Data = UpdateData u, MsgMonitorID = ID mon\<rparr>] \<and>
      upd_MonitorID u = ID mon \<and>
      upd_UptimePercentage u =
        calculateUptimePercentage (uptime_env env) (clock_uptime env) (metrics w') (ID mon) \<and>
      metrics w' =
        (case insert_error env of
           None \<Rightarrow> metrics w @ [new_metric mon st c rt e (clock_now env)]
         | Some err \<Rightarrow> metrics w)"
proof -
  obtain st c rt e where cl: "classify env = (st, c, rt, e)" by (cases "classify env") auto
  let ?w1 = "w\<lparr>semaphore := (semaphore w)\<lparr>buf := buf (semaphore w) @ [()]\<rparr>\<rparr>"
  have room1: "\<not> closed (Broadcast ?w1)" "length (buf (Broadcast ?w1)) < cap (Broadcast ?w1)"
    using room by simp_all
  let ?s = "sink_state mon st c rt e env ?w1"
  let ?up = "calculateUptimePercentage (uptime_env env) (clock_uptime env) (metrics ?s) (ID mon)"
  let ?w2 = "?s\<lparr>Broadcast := (Broadcast ?w1)\<lparr>buf := buf (Broadcast ?w1) @
           [metric_update_message mon st c rt e (clock_now env) ?up]\<rparr>\<rparr>"
  have rec: "recordMetric mon st c rt e env ?w1 = Done ?w2"
    by (rule recordMetric_room[OF room1])
  have sem2: "semaphore ?w2 = (semaphore w)\<lparr>buf := buf (semaphore w) @ [()]\<rparr>"
    by (simp add: sink_state_frame)
  have run: "checkEndpoint mon env w = Done (?w2\<lparr>semaphore := semaphore w\<rparr>)"
    unfolding checkEndpoint_classify cl prod.case
    by (rule with_semaphore_restores[where body = "recordMetric mon st c rt e env",
          OF slot rec sem2])
  let ?u = "\<lparr>upd_MonitorID = ID mon, upd_Status = st, upd_StatusCode = c,
         upd_ResponseTime = rt, upd_URL = URL mon, upd_Error = e,
         upd_Timestamp = clock_now env, upd_UptimePercentage = ?up\<rparr>"
  have "semaphore (?w2\<lparr>semaphore := semaphore w\<rparr>) = semaphore w"
    "cap (Broadcast (?w2\<lparr>semaphore := semaphore w\<rparr>)) = cap (Broadcast w)"
    "closed (Broadcast (?w2\<lparr>semaphore := semaphore w\<rparr>)) = closed (Broadcast w)"
    "buf (Broadcast (?w2\<lparr>semaphore := semaphore w\<rparr>)) = buf (Broadcast w) @
        [\<lparr>Type = ''metric_update'', Data = UpdateData ?u, MsgMonitorID = ID mon\<rparr>]"
    "upd_MonitorID ?u = ID mon"
    "upd_UptimePercentage ?u =
        calculateUptimePercentage (uptime_env env) (clock_uptime env)
          (metrics (?w2\<lparr>semaphore := semaphore w\<rparr>)) (ID mon)"
    "metrics (?w2\<lparr>semaphore := semaphore w\<rparr>) =
        (case insert_error env of
           None \<Rightarrow> metrics w @ [new_metric mon st c rt e (clock_now env)]
         | Some err \<Rightarrow> metrics w)"
    by (simp_all add: metric_update_message_def sink_state_frame split: option.splits)
  with run show ?thesis by blast
qed

text \<open>
  Claim C2. The rolling uptime of a monitor is computed from the samples of that monitor
  in the metric log whose timestamp lies in the trailing 24 hours: it is the
  \<open>float64\<close> value of \<open>(total - down) / total * 100\<close> over the samples found (those
  the cursor decodes), and 100 when there is none or the query fails. Eight samples
  that are not down and two that are down give exactly 80. Every probe that finds a
  free slot and room in the hub's queue completes, and the update event it sends
  carries the uptime computed over the log as it is after the probe, with the probe's
  own metric appended when the store accepted it.
\<close>

theorem uptime_percentage_window:
  "calculateUptimePercentage env now coll monitorID =
     (let window = filter (\<lambda>m. MonitorID m = monitorID \<and> now - 24 * Hour \<le> CheckedAt m \<and> decodes env m) coll;
          n = int (length window);
          d = int (length (filter (\<lambda>m. Status m = ''down'') window))
      in if find_error env \<noteq> None \<or> n = 0 then 100
         else f64_mul (f64_div (f64_of_int (n - d)) (f64_of_int n)) 100)
   \<and> (find_error env = None \<longrightarrow>
        length (filter (\<lambda>m. MonitorID m = monitorID \<and> now - 24 * Hour \<le> CheckedAt m \<and> decodes env m \<and> Status m \<noteq> ''down'') coll) = 8 \<longrightarrow>
        length (filter (\<lambda>m. MonitorID m = monitorID \<and> now - 24 * Hour \<le> CheckedAt m \<and> decodes env m \<and> Status m = ''down'') coll) = 2 \<longrightarrow>
        calculateUptimePercentage env now coll monitorID = 80)
   \<and> (\<not> closed (semaphore w) \<and> length (buf (semaphore w)) < cap (semaphore w) \<and>
        \<not> closed (Broadcast w) \<and> length (buf (Broadcast w)) < cap (Broadcast w) \<longrightarrow>
        (\<exists>w' u. checkEndpoint mon penv w = Done w' \<and>
           buf (Broadcast w') = buf (Broadcast w) @
             [\<lparr>Type = ''metric_update'', Data = UpdateData u, MsgMonitorID = ID mon\<rparr>] \<and>
           upd_UptimePercentage u =
             calculateUptimePercentage (uptime_env penv) (clock_uptime penv) (metrics w') (ID mon) \<and>
           (insert_error penv = None \<longrightarrow>
              (\<exists>m. metrics w' = metrics w @ [m] \<and> MonitorID m = ID mon \<and>
                   CheckedAt m = clock_now penv))))"
  (is "?A \<and> ?B \<and> ?C")
proof (intro conjI)
  let ?P = "\<lambda>m. MonitorID m = monitorID \<and> now - 24 * Hour \<le> CheckedAt m \<and> decodes env m"
  let ?W = "filter ?P coll"
  show A: ?A by (rule calculateUptimePercentage_value)
  show ?B
  proof (intro impI)
    assume ok: "find_error env = None"
      and up: "length (filter (\<lambda>m. MonitorID m = monitorID \<and> now - 24 * Hour \<le> CheckedAt m \<and> decodes env m \<and> Status m \<noteq> ''down'') coll) = 8"
      and down: "length (filter (\<lambda>m. MonitorID m = monitorID \<and> now - 24 * Hour \<le> CheckedAt m \<and> decodes env m \<and> Status m = ''down'') coll) = 2"
    let ?Wd = "filter (\<lambda>m. Status m = ''down'') ?W"
    let ?Wu = "filter (\<lambda>m. \<not> Status m = ''down'') ?W"
    have d: "length ?Wd = 2"
      using down by (simp add: conj_commute conj_left_commute cong: conj_cong)
    have u: "length ?Wu = 8"
      using up by (simp add: conj_commute conj_left_commute cong: conj_cong)
    have "length ?Wd + length ?Wu = length ?W"
      by (rule sum_length_filter_compl)
    with d u have n: "length ?W = 10" by simp
    define Wl where "Wl = ?W"
    have "calculateUptimePercentage env now coll monitorID =
        (if find_error env \<noteq> None \<or> int (length Wl) = 0 then 100
         else f64_mul (f64_div (f64_of_int (int (length Wl) - int (length (filter (\<lambda>m. Status m = ''down'') Wl))))
                (f64_of_int (int (length Wl)))) 100)"
      using A unfolding Let_def Wl_def .
    moreover have "length Wl = 10" "length (filter (\<lambda>m. Status m = ''down'') Wl) = 2"
      using n d by (simp_all only: Wl_def)
    ultimately show "calculateUptimePercentage env now coll monitorID = 80"
      using ok by (simp add: uptime_8_of_10)
  qed
  show ?C
  proof
    assume h: "\<not> closed (semaphore w) \<and> length (buf (semaphore w)) < cap (semaphore w) \<and>
        \<not> closed (Broadcast w) \<and> length (buf (Broadcast w)) < cap (Broadcast w)"
    then have slot: "\<not> closed (semaphore w)" "length (buf (semaphore w)) < cap (semaphore w)"
      and room: "\<not> closed (Broadcast w)" "length (buf (Broadcast w)) < cap (Broadcast w)"
      by simp_all
    from checkEndpoint_completes[OF slot room, of mon penv]
    obtain w' u st c rt e where
      r1: "checkEndpoint mon penv w = Done w'"
      and r2: "buf (Broadcast w') = buf (Broadcast w) @
        [\<lparr>Type = ''metric_update'', Data = UpdateData u, MsgMonitorID = ID mon\<rparr>]"
      and r3: "upd_UptimePercentage u =
        calculateUptimePercentage (uptime_env penv) (clock_uptime penv) (metrics w') (ID mon)"
      and met: "metrics w' =
        (case insert_error penv of
           None \<Rightarrow> metrics w @ [new_metric mon st c rt e (clock_now penv)]
         | Some err \<Rightarrow> metrics w)"
      by blast
    have r4: "insert_error penv = None \<longrightarrow>
              (\<exists>m. metrics w' = metrics w @ [m] \<and> MonitorID m = ID mon \<and>
                   CheckedAt m = clock_now penv)"
      using met by (simp add: new_metric_def)
    show "\<exists>w' u. checkEndpoint mon penv w = Done w' \<and>
           buf (Broadcast w') = buf (Broadcast w) @
             [\<lparr>Type = ''metric_update'', Data = UpdateData u, MsgMonitorID = ID mon\<rparr>] \<and>
           upd_UptimePercentage u =
             calculateUptimePercentage (uptime_env penv) (clock_uptime penv) (metrics w') (ID mon) \<and>
           (insert_error penv = None \<longrightarrow>
              (\<exists>m. metrics w' = metrics w @ [m] \<and> MonitorID m = ID mon \<and>
                   CheckedAt m = clock_now penv))"
      by (intro exI[of _ w'] exI[of _ u] conjI r1 r2 r3 r4)
  qed
qed

theorem uptime_percentage_window_witness:
  "calculateUptimePercentage \<lparr>find_error = None, decodes = (\<lambda>m. True)\<rparr> 52
     (sample_history @ [sample_metric ''down'' 7 50]) ''65f0a1b2c3d4e5f601234567'' = 80 \<and>
   (\<exists>w' u. checkEndpoint sample_monitor (sample_env None (Inr 500))
               (sample_world\<lparr>metrics := sample_history\<rparr>) = Done w' \<and>
        buf (Broadcast w') =
          [\<lparr>Type = ''metric_update'', Data = UpdateData u,
            MsgMonitorID = ''65f0a1b2c3d4e5f601234567''\<rparr>] \<and>
        upd_UptimePercentage u = 80)"
proof -
  let ?fenv = "\<lparr>find_error = None, decodes = (\<lambda>m. True)\<rparr>"
  let ?final = "sample_history @ [sample_metric ''down'' 7 50]"
  let ?w = "sample_world\<lparr>metrics := sample_history\<rparr>"
  let ?env = "sample_env None (Inr 500)"
  note inst = uptime_percentage_window
    [of ?fenv 52 ?final "''65f0a1b2c3d4e5f601234567''" ?w sample_monitor ?env]
  have val: "calculateUptimePercentage ?fenv 52 ?final ''65f0a1b2c3d4e5f601234567'' = 80"
    using inst[THEN conjunct2, THEN conjunct1]
    by (simp add: sample_history_def sample_metric_def Hour_def Second_def)
  have pre: "\<not> closed (semaphore ?w) \<and> length (buf (semaphore ?w)) < cap (semaphore ?w) \<and>
        \<not> closed (Broadcast ?w) \<and> length (buf (Broadcast ?w)) < cap (Broadcast ?w)"
    by (simp add: sample_world_def make_chan_def)
  from inst[THEN conjunct2, THEN conjunct2, rule_format, OF pre]
  obtain w' u where
    r1: "checkEndpoint sample_monitor ?env ?w = Done w'"
    and r2: "buf (Broadcast w') = buf (Broadcast ?w) @
             [\<lparr>Type = ''metric_update'', Data = UpdateData u, MsgMonitorID = ID sample_monitor\<rparr>]"
    and r3: "upd_UptimePercentage u =
             calculateUptimePercentage (uptime_env ?env) (clock_uptime ?env) (metrics w') (ID sample_monitor)"
    and r4: "insert_error ?env = None \<longrightarrow>
              (\<exists>m. metrics w' = metrics ?w @ [m] \<and> MonitorID m = ID sample_monitor \<and>
                   CheckedAt m = clock_now ?env)"
    by (elim exE conjE) (rule that; assumption)
  have "\<exists>W. checkEndpoint sample_monitor ?env ?w = Done W \<and> metrics W = ?final"
    by (simp add: checkEndpoint_def with_semaphore_def recordMetric_def chan_send_def chan_recv_def
        updateMonitorStatus_def new_metric_def sample_world_def sample_env_def sample_monitor_def
        sample_metric_def make_chan_def Let_def)
  with r1 have m: "metrics w' = ?final" by auto
  have "upd_UptimePercentage u = 80"
    using r3 val unfolding m by (simp add: sample_env_def sample_monitor_def)
  moreover have "buf (Broadcast w') =
          [\<lparr>Type = ''metric_update'', Data = UpdateData u,
            MsgMonitorID = ''65f0a1b2c3d4e5f601234567''\<rparr>]"
    using r2 by (simp add: sample_world_def make_chan_def sample_monitor_def)
  ultimately show ?thesis using val r1 by blast
qed

lemma uptime_2_of_3:
  "f64_mul (f64_div (f64_of_int 2) (f64_of_int 3)) 100 = 2345624805922133 / 35184372088832"
  by code_simp

lemma average_62_over_3:
  "f64_div (f64_of_int 62) (f64_of_int 3) = 5817149518686891 / 281474976710656"
  by code_simp

text \<open>
  Claim C10. The summary of the empty list has zero counts, zero response times and
  uptime 0, whereas the rolling uptime is 100 whenever the window holds no sample of
  the monitor. The summary of a non-empty list counts the samples, those that are up
  and the others, and gives the \<open>float64\<close> value of \<open>up / total * 100\<close>, the least
  and the greatest response time, and the average: the \<open>float64\<close> quotient of the
  64-bit sum of the response times by the count, where the sum is the plain sum while
  it fits in 63 bits.
\<close>

theorem metrics_summary_values:
  "calculateMetricsSummary [] =
     \<lparr>total_checks = 0, successful_checks = 0, failed_checks = 0, uptime_percentage = 0,
      average_response = 0, min_response = 0, max_response = 0\<rparr> \<and>
   (find_error env \<noteq> None \<or>
    filter (\<lambda>m. MonitorID m = monitorID \<and> now - 24 * Hour \<le> CheckedAt m \<and> decodes env m) coll = []
      \<longrightarrow> calculateUptimePercentage env now coll monitorID = 100) \<and>
   (ms \<noteq> [] \<longrightarrow>
      (let summary = calculateMetricsSummary ms;
           n = int (length ms);
           up = int (length (filter (\<lambda>m. Status m = ''up'') ms));
           total_ms = sum_list (map ResponseTime ms)
       in total_checks summary = n \<and>
          successful_checks summary = up \<and>
          failed_checks summary = n - up \<and>
          uptime_percentage summary = f64_mul (f64_div (f64_of_int up) (f64_of_int n)) 100 \<and>
          min_response summary = Min (ResponseTime ` set ms) \<and>
          max_response summary = Max (ResponseTime ` set ms) \<and>
          average_response summary = f64_div (f64_of_int (wrap64 total_ms)) (f64_of_int n) \<and>
          (0 \<le> total_ms \<and> total_ms < 2 ^ 63 \<longrightarrow>
             average_response summary = f64_div (f64_of_int total_ms) (f64_of_int n))))"
proof (intro conjI impI)
  show "calculateMetricsSummary [] =
     \<lparr>total_checks = 0, successful_checks = 0, failed_checks = 0, uptime_percentage = 0,
      average_response = 0, min_response = 0, max_response = 0\<rparr>"
    by (simp add: calculateMetricsSummary_def)
  show "calculateUptimePercentage env now coll monitorID = 100"
    if "find_error env \<noteq> None \<or>
      filter (\<lambda>m. MonitorID m = monitorID \<and> now - 24 * Hour \<le> CheckedAt m \<and> decodes env m) coll = []"
    using that unfolding calculateUptimePercentage_value Let_def by auto
  assume ne: "ms \<noteq> []"
  define up where "up = length (filter (\<lambda>m. Status m = ''up'') ms)"
  define total_ms where "total_ms = sum_list (map ResponseTime ms)"
  define r0 where "r0 = ResponseTime (hd ms)"
  have m0: "insert r0 (ResponseTime ` set ms) = ResponseTime ` set ms"
    using ne by (auto simp add: r0_def)
  have uple: "up \<le> length ms" by (simp add: up_def)
  have notup: "length (filter (\<lambda>m. Status m \<noteq> ''up'') ms) = length ms - up"
    using sum_length_filter_compl[of "\<lambda>m. Status m = ''up''" ms] by (simp add: up_def)
  have unf: "calculateMetricsSummary ms =
      (case summary_loop ms (0, 0, 0, r0, r0) of
             (successfulChecks, failedChecks, totalResponseTime, minResponse, maxResponse) \<Rightarrow>
               \<lparr>total_checks = int (length ms),
                successful_checks = successfulChecks,
                failed_checks = failedChecks,
                uptime_percentage =
                  f64_mul (f64_div (f64_of_int successfulChecks) (f64_of_int (int (length ms)))) 100,
                average_response =
                  f64_div (f64_of_int totalResponseTime) (f64_of_int (int (length ms))),
                min_response = minResponse,
                max_response = maxResponse\<rparr>)"
    using ne by (cases ms) (simp_all add: calculateMetricsSummary_def r0_def)
  have loop: "summary_loop ms (0, 0, 0, r0, r0) =
      (int up, int (length ms) - int up, wrap64 total_ms,
       Min (ResponseTime ` set ms), Max (ResponseTime ` set ms))"
    unfolding summary_loop_result m0 notup up_def[symmetric] total_ms_def[symmetric]
    using ne uple by (simp add: of_nat_diff)
  have val: "calculateMetricsSummary ms =
     \<lparr>total_checks = int (length ms), successful_checks = int up,
      failed_checks = int (length ms) - int up,
      uptime_percentage = f64_mul (f64_div (f64_of_int (int up)) (f64_of_int (int (length ms)))) 100,
      average_response = f64_div (f64_of_int (wrap64 total_ms)) (f64_of_int (int (length ms))),
      min_response = Min (ResponseTime ` set ms),
      max_response = Max (ResponseTime ` set ms)\<rparr>"
    unfolding unf loop by simp
  have nowrap: "wrap64 total_ms = total_ms" if "0 \<le> total_ms \<and> total_ms < 2 ^ 63"
    using that by (intro wrap64_id) simp_all
  show "let summary = calculateMetricsSummary ms;
           n = int (length ms);
           up = int (length (filter (\<lambda>m. Status m = ''up'') ms));
           total_ms = sum_list (map ResponseTime ms)
       in total_checks summary = n \<and>
          successful_checks summary = up \<and>
          failed_checks summary = n - up \<and>
          uptime_percentage summary = f64_mul (f64_div (f64_of_int up) (f64_of_int n)) 100 \<and>
          min_response summary = Min (ResponseTime ` set ms) \<and>
          max_response summary = Max (ResponseTime ` set ms) \<and>
          average_response summary = f64_div (f64_of_int (wrap64 total_ms)) (f64_of_int n) \<and>
          (0 \<le> total_ms \<and> total_ms < 2 ^ 63 \<longrightarrow>
             average_response summary = f64_div (f64_of_int total_ms) (f64_of_int n))"
    unfolding Let_def up_def[symmetric] total_ms_def[symmetric] val
    using nowrap by simp
qed

theorem metrics_summary_values_witness:
  "calculateMetricsSummary
     [sample_metric ''up'' 12 (98 * Hour), sample_metric ''down'' 30 (10 * Hour),
      sample_metric ''up'' 20 (99 * Hour)] =
     \<lparr>total_checks = 3, successful_checks = 2, failed_checks = 1,
      uptime_percentage = 2345624805922133 / 35184372088832,
      average_response = 5817149518686891 / 281474976710656,
      min_response = 12, max_response = 30\<rparr> \<and>
   calculateUptimePercentage \<lparr>find_error = None, decodes = (\<lambda>m. True)\<rparr> (100 * Hour)
     [sample_metric ''down'' 30 (10 * Hour)] ''65f0a1b2c3d4e5f601234567'' = 100"
proof -
  let ?ms = "[sample_metric ''up'' 12 (98 * Hour), sample_metric ''down'' 30 (10 * Hour),
      sample_metric ''up'' 20 (99 * Hour)]"
  note inst = metrics_summary_values
    [of "\<lparr>find_error = None, decodes = (\<lambda>m. True)\<rparr>" "''65f0a1b2c3d4e5f601234567''"
      "100 * Hour" "[sample_metric ''down'' 30 (10 * Hour)]" ?ms]
  have a: "calculateUptimePercentage \<lparr>find_error = None, decodes = (\<lambda>m. True)\<rparr> (100 * Hour)
     [sample_metric ''down'' 30 (10 * Hour)] ''65f0a1b2c3d4e5f601234567'' = 100"
    using inst[THEN conjunct2, THEN conjunct1]
    by (simp add: sample_metric_def Hour_def Second_def)
  have b: "total_checks (calculateMetricsSummary ?ms) = 3"
    "successful_checks (calculateMetricsSummary ?ms) = 2"
    "failed_checks (calculateMetricsSummary ?ms) = 1"
    "uptime_percentage (calculateMetricsSummary ?ms) = 2345624805922133 / 35184372088832"
    "average_response (calculateMetricsSummary ?ms) = 5817149518686891 / 281474976710656"
    "min_response (calculateMetricsSummary ?ms) = 12"
    "max_response (calculateMetricsSummary ?ms) = 30"
    using inst[THEN conjunct2, THEN conjunct2]
    by (simp_all add: Let_def sample_metric_def uptime_2_of_3 average_62_over_3 wrap64_def)
  have "calculateMetricsSummary ?ms =
     \<lparr>total_checks = 3, successful_checks = 2, failed_checks = 1,
      uptime_percentage = 2345624805922133 / 35184372088832,
      average_response = 5817149518686891 / 281474976710656,
      min_response = 12, max_response = 30\<rparr>"
    using b by (cases "calculateMetricsSummary ?ms") simp
  with a show ?thesis by blast
qed

subsection \<open>The scheduler loop\<close>

lemma next_fire_at:
  assumes "0 < d"
  shows "next_fire t0 d (t0 + int j * d) = t0 + int (Suc j) * d"
  using assms by (simp add: next_fire_def algebra_simps)

lemma select_wakeup_cases:
  assumes "t < f"
  shows "(\<exists>b ts. select_wakeup f stop t c = StopChan b \<and> stop = Some ts \<and> ts \<le> f) \<or>
         (select_wakeup f stop t c = TickerC f \<and> (\<forall>ts. stop = Some ts \<longrightarrow> f \<le> ts))"
  using assms
  by (cases stop) (auto simp add: select_wakeup_def Let_def max_def)

lemma probe_step:
  assumes slot: "\<not> closed (semaphore w)" "length (buf (semaphore w)) < cap (semaphore w)"
      and opn: "\<not> closed (Broadcast w)"
      and room: "length (buf (Broadcast w)) - k < cap (Broadcast w)"
  shows "\<exists>w1 ms1 ev.
      checkEndpoint mon env (hub_receives k w) = Done w1 \<and>
      semaphore w1 = semaphore w \<and>
      cap (Broadcast w1) = cap (Broadcast w) \<and> closed (Broadcast w1) = closed (Broadcast w) \<and>
      buf (Broadcast w1) = drop k (buf (Broadcast w)) @ [ev] \<and>
      Type ev = ''metric_update'' \<and> MsgMonitorID ev = ID mon \<and>
      metrics w1 = metrics w @ ms1 \<and> (\<forall>m \<in> set ms1. MonitorID m = ID mon) \<and>
      length ms1 = (if insert_error env = None then 1 else 0)"
proof -
  let ?w0 = "hub_receives k w"
  have s0: "\<not> closed (semaphore ?w0)" "length (buf (semaphore ?w0)) < cap (semaphore ?w0)"
    and r0: "\<not> closed (Broadcast ?w0)" "length (buf (Broadcast ?w0)) < cap (Broadcast ?w0)"
    using slot opn room by (simp_all add: hub_receives_def)
  from checkEndpoint_completes[OF s0 r0, of mon env]
  obtain w1 u st c rt e where
    a: "checkEndpoint mon env ?w0 = Done w1"
    and b: "semaphore w1 = semaphore ?w0"
       "cap (Broadcast w1) = cap (Broadcast ?w0)" "closed (Broadcast w1) = closed (Broadcast ?w0)"
    and c: "buf (Broadcast w1) = buf (Broadcast ?w0) @
        [\<lparr>Type = ''metric_update'', Data = UpdateData u, MsgMonitorID = ID mon\<rparr>]"
    and d: "metrics w1 =
        (case insert_error env of
           None \<Rightarrow> metrics ?w0 @ [new_metric mon st c rt e (clock_now env)]
         | Some err \<Rightarrow> metrics ?w0)"
    by (elim exE conjE) (rule that; assumption)
  let ?ev = "\<lparr>Type = ''metric_update'', Data = UpdateData u, MsgMonitorID = ID mon\<rparr>"
  let ?ms = "case insert_error env of
        None \<Rightarrow> [new_metric mon st c rt e (clock_now env)] | Some err \<Rightarrow> []"
  have "semaphore w1 = semaphore w"
    "cap (Broadcast w1) = cap (Broadcast w)" "closed (Broadcast w1) = closed (Broadcast w)"
    "buf (Broadcast w1) = drop k (buf (Broadcast w)) @ [?ev]"
    "Type ?ev = ''metric_update''" "MsgMonitorID ?ev = ID mon"
    "metrics w1 = metrics w @ ?ms" "\<forall>m \<in> set ?ms. MonitorID m = ID mon"
    "length ?ms = (if insert_error env = None then 1 else 0)"
    using b c d by (simp_all add: hub_receives_def new_metric_def split: option.splits)
  with a show ?thesis by (intro exI[of _ w1] exI[of _ ?ms] exI[of _ ?ev]) simp
qed

lemma on_schedule_waiting: "on_schedule mon t0 d stop j [] w ([], Waiting, w)"
  unfolding on_schedule_def
  by (intro exI[of _ 0] exI[of _ "[]"]) (simp add: queue_after_def)

lemma on_schedule_returned:
  assumes "stop = Some ts" "ts \<le> t0 + int (Suc j) * d"
  shows "on_schedule mon t0 d stop j (i # rest) w ([], Returned, w)"
  unfolding on_schedule_def
  using assms
  by (intro exI[of _ 0] exI[of _ "[]"]) (simp add: queue_after_def)

lemma on_schedule_tick:
  assumes rest: "on_schedule mon t0 d stop (Suc j) rest w1 (starts, e, w_end)"
      and met: "metrics w1 = metrics w @ ms1" "\<forall>m \<in> set ms1. MonitorID m = ID mon"
        "length ms1 = (if insert_error (p_env i) = None then 1 else 0)"
      and ev: "buf (Broadcast w1) = drop (p_hub_received i) (buf (Broadcast w)) @ [ev]"
        "Type ev = ''metric_update''" "MsgMonitorID ev = ID mon"
      and before: "\<forall>ts. stop = Some ts \<longrightarrow> t0 + int (Suc j) * d \<le> ts"
  shows "on_schedule mon t0 d stop j (i # rest) w ((t0 + int (Suc j) * d) # starts, e, w_end)"
proof -
  from rest obtain n ms evs where
    st: "starts = map (\<lambda>k. t0 + int (Suc j + k) * d) [1..<Suc n]"
    and n: "n \<le> length rest"
    and bound: "\<forall>ts. stop = Some ts \<longrightarrow> (\<forall>k. 1 \<le> k \<and> k \<le> n \<longrightarrow> t0 + int (Suc j + k) * d \<le> ts)"
    and fin: "e = Waiting \<and> n = length rest \<or>
         e = Returned \<and> n < length rest \<and>
           (\<exists>ts. stop = Some ts \<and> ts \<le> t0 + int (Suc j + Suc n) * d)"
    and ms: "metrics w_end = metrics w1 @ ms"
      "length ms = length (filter (\<lambda>i. insert_error (p_env i) = None) (take n rest))"
      "\<forall>m \<in> set ms. MonitorID m = ID mon"
    and evs: "length evs = n" "\<forall>ev \<in> set evs. Type ev = ''metric_update'' \<and> MsgMonitorID ev = ID mon"
    and q: "buf (Broadcast w_end) =
          queue_after (buf (Broadcast w1)) (zip (map p_hub_received (take n rest)) evs)"
    unfolding on_schedule_def by auto
  have upt: "[1..<Suc (Suc n)] = 1 # map Suc [1..<Suc n]"
    by (simp add: map_Suc_upt upt_conv_Cons del: upt_Suc)
  have a: "(t0 + int (Suc j) * d) # starts = map (\<lambda>k. t0 + int (j + k) * d) [1..<Suc (Suc n)]"
    unfolding upt st by (simp add: comp_def)
  have b: "\<forall>ts. stop = Some ts \<longrightarrow> (\<forall>k. 1 \<le> k \<and> k \<le> Suc n \<longrightarrow> t0 + int (j + k) * d \<le> ts)"
  proof (intro allI impI)
    fix ts k assume s: "stop = Some ts" and k: "1 \<le> k \<and> k \<le> Suc n"
    show "t0 + int (j + k) * d \<le> ts"
    proof (cases "k = 1")
      case True
      with before s show ?thesis by simp
    next
      case False
      with k obtain k' where k': "k = Suc k'" "1 \<le> k'" "k' \<le> n" by (cases k) auto
      with bound s have "t0 + int (Suc j + k') * d \<le> ts" by blast
      then show ?thesis by (simp add: k')
    qed
  qed
  have c: "e = Waiting \<and> Suc n = length (i # rest) \<or>
         e = Returned \<and> Suc n < length (i # rest) \<and>
           (\<exists>ts. stop = Some ts \<and> ts \<le> t0 + int (j + Suc (Suc n)) * d)"
    using fin by auto
  have d: "metrics w_end = metrics w @ (ms1 @ ms)"
    "length (ms1 @ ms) =
       length (filter (\<lambda>i. insert_error (p_env i) = None) (take (Suc n) (i # rest)))"
    "\<forall>x \<in> set (ms1 @ ms). MonitorID x = ID mon"
    using ms met by auto
  have e: "length (ev # evs) = Suc n"
    "\<forall>x \<in> set (ev # evs). Type x = ''metric_update'' \<and> MsgMonitorID x = ID mon"
    using evs ev by simp_all
  have f: "buf (Broadcast w_end) =
      queue_after (buf (Broadcast w))
        (zip (map p_hub_received (take (Suc n) (i # rest))) (ev # evs))"
    using q ev(1) by (simp add: queue_after_def)
  show ?thesis
    unfolding on_schedule_def fst_conv snd_conv
    using a b c d e f n
    by (intro exI[of _ "Suc n"] exI[of _ "ms1 @ ms"] exI[of _ "ev # evs"]) simp
qed

lemma job_loop_on_schedule:
  assumes d: "0 < d"
  shows "\<lbrakk>\<forall>i \<in> set inputs. 0 \<le> p_duration i \<and> p_duration i < d;
          \<not> closed (semaphore w); length (buf (semaphore w)) < cap (semaphore w);
          \<not> closed (Broadcast w);
          hub_keeps_up (cap (Broadcast w)) (length (buf (Broadcast w))) (map p_hub_received inputs);
          t0 + int j * d \<le> t; t < t0 + int (Suc j) * d\<rbrakk>
         \<Longrightarrow> on_schedule mon t0 d stop j inputs w
               (job_loop mon t0 d stop (t0 + int j * d) t inputs w)"
proof (induction inputs arbitrary: j t w)
  case Nil
  show ?case by (simp add: on_schedule_waiting)
next
  case (Cons i rest)
  let ?f = "t0 + int (Suc j) * d"
  have nf: "next_fire t0 d (t0 + int j * d) = ?f" by (rule next_fire_at[OF d])
  from select_wakeup_cases[OF Cons.prems(7), of stop "p_prefer_tick i"]
  show ?case
  proof
    assume "\<exists>b ts. select_wakeup ?f stop t (p_prefer_tick i) = StopChan b \<and> stop = Some ts \<and> ts \<le> ?f"
    then obtain b ts where sel: "select_wakeup ?f stop t (p_prefer_tick i) = StopChan b"
      and st: "stop = Some ts" "ts \<le> ?f" by blast
    have "job_loop mon t0 d stop (t0 + int j * d) t (i # rest) w = ([], Returned, w)"
      by (simp only: job_loop.simps nf sel wakeup.case)
    then show ?thesis using on_schedule_returned[OF st] by (simp only:)
  next
    assume "select_wakeup ?f stop t (p_prefer_tick i) = TickerC ?f \<and> (\<forall>ts. stop = Some ts \<longrightarrow> ?f \<le> ts)"
    then have sel: "select_wakeup ?f stop t (p_prefer_tick i) = TickerC ?f"
      and before: "\<forall>ts. stop = Some ts \<longrightarrow> ?f \<le> ts" by blast+
    have room: "length (buf (Broadcast w)) - p_hub_received i < cap (Broadcast w)"
      and keeps: "hub_keeps_up (cap (Broadcast w)) (Suc (length (buf (Broadcast w)) - p_hub_received i))
                    (map p_hub_received rest)"
      using Cons.prems(5) by simp_all
    from probe_step[OF Cons.prems(2,3,4) room, of mon "p_env i"]
    obtain w1 ms1 ev where
      run: "checkEndpoint mon (p_env i) (hub_receives (p_hub_received i) w) = Done w1"
      and sem: "semaphore w1 = semaphore w"
      and bc: "cap (Broadcast w1) = cap (Broadcast w)" "closed (Broadcast w1) = closed (Broadcast w)"
      and q: "buf (Broadcast w1) = drop (p_hub_received i) (buf (Broadcast w)) @ [ev]"
      and evp: "Type ev = ''metric_update''" "MsgMonitorID ev = ID mon"
      and met: "metrics w1 = metrics w @ ms1" "\<forall>m \<in> set ms1. MonitorID m = ID mon"
        "length ms1 = (if insert_error (p_env i) = None then 1 else 0)"
      by (elim exE conjE) (rule that; assumption)
    have dur: "0 \<le> p_duration i" "p_duration i < d" using Cons.prems(1) by simp_all
    have p1: "\<forall>x \<in> set rest. 0 \<le> p_duration x \<and> p_duration x < d"
      using Cons.prems(1) by simp
    have p2: "\<not> closed (semaphore w1)" "length (buf (semaphore w1)) < cap (semaphore w1)"
      "\<not> closed (Broadcast w1)"
      using Cons.prems(2,3,4) sem bc by simp_all
    have p3: "hub_keeps_up (cap (Broadcast w1)) (length (buf (Broadcast w1))) (map p_hub_received rest)"
      using keeps by (simp add: bc q)
    have p4: "t0 + int (Suc j) * d \<le> ?f + p_duration i"
      "?f + p_duration i < t0 + int (Suc (Suc j)) * d"
      using dur by (simp_all add: algebra_simps)
    note ih = Cons.IH[OF p1 p2 p3 p4]
    obtain starts e w_end where
      r: "job_loop mon t0 d stop ?f (?f + p_duration i) rest w1 = (starts, e, w_end)"
      by (cases "job_loop mon t0 d stop ?f (?f + p_duration i) rest w1") auto
    have "job_loop mon t0 d stop (t0 + int j * d) t (i # rest) w = (?f # starts, e, w_end)"
      by (simp only: job_loop.simps nf sel wakeup.case Let_def run go.case r prod.case)
    moreover have "on_schedule mon t0 d stop j (i # rest) w (?f # starts, e, w_end)"
      using ih unfolding r by (rule on_schedule_tick[OF _ met q evp before])
    ultimately show ?thesis by (simp only:)
  qed
qed

lemma ticker_period:
  assumes "1 \<le> n" "n \<le> 9223372036"
  shows "duration_mul n Second = n * Second" "0 < n * Second"
proof -
  have a: "wrap64 n = n" using assms by (intro wrap64_id) simp_all
  have "n * 1000000000 \<le> 9223372036 * 1000000000"
    using assms by (intro mult_right_mono) simp_all
  moreover have "0 < n * 1000000000" using assms by simp
  ultimately have "wrap64 (n * 1000000000) = n * 1000000000"
    by (intro wrap64_id) simp_all
  with a show "duration_mul n Second = n * Second"
    by (simp add: duration_mul_def Second_def)
  from assms show "0 < n * Second" by (simp add: Second_def)
qed

text \<open>
  Claim C6, amended. Take a monitor whose interval is between 1 and 9223372036 seconds,
  so that it is a positive 64-bit count of nanoseconds, every probe of which takes less
  than the interval and finds a free slot of the semaphore and room in the hub's
  queue. Started at \<open>t0\<close>, the goroutine calls \<open>checkEndpoint\<close> at \<open>t0\<close> and then
  at \<open>t0 + k * Interval\<close> for \<open>k = 1, ..., n\<close>: once for every firing of the ticker,
  none of them later than the close of the stop channel. It stands waiting in the
  \<open>select\<close> when its inputs are used up, or it has returned, the stop channel
  having been closed no later than the next firing; and it has returned whenever the
  stop channel was closed before the firing that its last input would have served.
  Every one of the \<open>n + 1\<close> probes went through \<open>recordMetric\<close>: each has put one
  update event of the monitor on the hub's queue, and each whose insert the store
  accepted has appended one metric of the monitor to the log.
\<close>

theorem scheduler_loop_probes:
  assumes interval: "1 \<le> Interval mon" "Interval mon \<le> 9223372036"
      and quick: "\<forall>i \<in> set (first # rest). 0 \<le> p_duration i \<and> p_duration i < Interval mon * Second"
      and slot: "\<not> closed (semaphore w)" "length (buf (semaphore w)) < cap (semaphore w)"
      and opn: "\<not> closed (Broadcast w)"
      and room: "hub_keeps_up (cap (Broadcast w)) (length (buf (Broadcast w)))
                   (map p_hub_received (first # rest))"
  shows "\<exists>n e w_end ms evs.
      monitor_goroutine mon t0 stop first rest w =
        (map (\<lambda>k. t0 + int k * (Interval mon * Second)) [0..<Suc n], e, w_end) \<and>
      n \<le> length rest \<and>
      (\<forall>ts. stop = Some ts \<longrightarrow>
         (\<forall>k. 1 \<le> k \<and> k \<le> n \<longrightarrow> t0 + int k * (Interval mon * Second) \<le> ts)) \<and>
      (e = Waiting \<and> n = length rest \<or>
       e = Returned \<and> n < length rest \<and>
         (\<exists>ts. stop = Some ts \<and> ts \<le> t0 + int (Suc n) * (Interval mon * Second))) \<and>
      (\<forall>ts. stop = Some ts \<and> rest \<noteq> [] \<and>
            ts < t0 + int (length rest) * (Interval mon * Second) \<longrightarrow> e = Returned) \<and>
      metrics w_end = metrics w @ ms \<and>
      length ms =
        length (filter (\<lambda>i. insert_error (p_env i) = None) (take (Suc n) (first # rest))) \<and>
      (\<forall>m \<in> set ms. MonitorID m = ID mon) \<and>
      length evs = Suc n \<and>
      (\<forall>ev \<in> set evs. Type ev = ''metric_update'' \<and> MsgMonitorID ev = ID mon) \<and>
      buf (Broadcast w_end) =
        queue_after (buf (Broadcast w))
          (zip (map p_hub_received (take (Suc n) (first # rest))) evs)"
proof -
  define d where "d = Interval mon * Second"
  have tick: "duration_mul (Interval mon) Second = d" and d: "0 < d"
    using ticker_period[OF interval] by (simp_all add: d_def)
  have nt: "NewTicker (duration_mul (Interval mon) Second) = Done d"
    using d by (simp add: NewTicker_def tick)
  have room1: "length (buf (Broadcast w)) - p_hub_received first < cap (Broadcast w)"
    and keeps: "hub_keeps_up (cap (Broadcast w))
                  (Suc (length (buf (Broadcast w)) - p_hub_received first))
                  (map p_hub_received rest)"
    using room by simp_all
  from probe_step[OF slot opn room1, of mon "p_env first"]
  obtain w1 ms1 ev where
    run: "checkEndpoint mon (p_env first) (hub_receives (p_hub_received first) w) = Done w1"
    and sem: "semaphore w1 = semaphore w"
    and bc: "cap (Broadcast w1) = cap (Broadcast w)" "closed (Broadcast w1) = closed (Broadcast w)"
    and q1: "buf (Broadcast w1) = drop (p_hub_received first) (buf (Broadcast w)) @ [ev]"
    and evp: "Type ev = ''metric_update''" "MsgMonitorID ev = ID mon"
    and met: "metrics w1 = metrics w @ ms1" "\<forall>m \<in> set ms1. MonitorID m = ID mon"
      "length ms1 = (if insert_error (p_env first) = None then 1 else 0)"
    by (elim exE conjE) (rule that; assumption)
  have p1: "\<forall>x \<in> set rest. 0 \<le> p_duration x \<and> p_duration x < d"
    using quick by (simp add: d_def)
  have p2: "\<not> closed (semaphore w1)" "length (buf (semaphore w1)) < cap (semaphore w1)"
    "\<not> closed (Broadcast w1)"
    using slot opn sem bc by simp_all
  have p3: "hub_keeps_up (cap (Broadcast w1)) (length (buf (Broadcast w1))) (map p_hub_received rest)"
    using keeps by (simp add: bc q1)
  have p4: "t0 + int 0 * d \<le> t0 + p_duration first" "t0 + p_duration first < t0 + int (Suc 0) * d"
    using quick by (simp_all add: d_def)
  obtain starts e w_end where
    r: "job_loop mon t0 d stop t0 (t0 + p_duration first) rest w1 = (starts, e, w_end)"
    by (cases "job_loop mon t0 d stop t0 (t0 + p_duration first) rest w1") auto
  have "on_schedule mon t0 d stop 0 rest w1
          (job_loop mon t0 d stop (t0 + int 0 * d) (t0 + p_duration first) rest w1)"
    by (rule job_loop_on_schedule[OF d p1 p2 p3 p4])
  then have os: "on_schedule mon t0 d stop 0 rest w1 (starts, e, w_end)"
    by (simp add: r)
  then obtain n ms evs where
    st: "starts = map (\<lambda>k. t0 + int k * d) [1..<Suc n]"
    and n: "n \<le> length rest"
    and bound: "\<forall>ts. stop = Some ts \<longrightarrow> (\<forall>k. 1 \<le> k \<and> k \<le> n \<longrightarrow> t0 + int k * d \<le> ts)"
    and fin: "e = Waiting \<and> n = length rest \<or>
         e = Returned \<and> n < length rest \<and> (\<exists>ts. stop = Some ts \<and> ts \<le> t0 + int (Suc n) * d)"
    and ms: "metrics w_end = metrics w1 @ ms"
      "length ms = length (filter (\<lambda>i. insert_error (p_env i) = None) (take n rest))"
      "\<forall>m \<in> set ms. MonitorID m = ID mon"
    and evs: "length evs = n" "\<forall>ev \<in> set evs. Type ev = ''metric_update'' \<and> MsgMonitorID ev = ID mon"
    and q: "buf (Broadcast w_end) =
          queue_after (buf (Broadcast w1)) (zip (map p_hub_received (take n rest)) evs)"
    unfolding on_schedule_def by auto
  have res: "monitor_goroutine mon t0 stop first rest w = (t0 # starts, e, w_end)"
    by (simp only: monitor_goroutine_def nt go.case Let_def run r prod.case)
  have a: "t0 # starts = map (\<lambda>k. t0 + int k * d) [0..<Suc n]"
    unfolding st by (simp add: upt_conv_Cons del: upt_Suc)
  have late: "\<forall>ts. stop = Some ts \<and> rest \<noteq> [] \<and> ts < t0 + int (length rest) * d \<longrightarrow>
                e = Returned"
  proof (intro allI impI)
    fix ts assume s: "stop = Some ts \<and> rest \<noteq> [] \<and> ts < t0 + int (length rest) * d"
    show "e = Returned"
    proof (rule ccontr)
      assume "e \<noteq> Returned"
      with fin have w: "e = Waiting" "n = length rest" by auto
      show False
      proof (cases "n = 0")
        case True
        with s w show False by simp
      next
        case False
        with bound s have "t0 + int n * d \<le> ts" by simp
        with s w show False by simp
      qed
    qed
  qed
  have dd: "metrics w_end = metrics w @ (ms1 @ ms)"
    "length (ms1 @ ms) =
       length (filter (\<lambda>i. insert_error (p_env i) = None) (take (Suc n) (first # rest)))"
    "\<forall>x \<in> set (ms1 @ ms). MonitorID x = ID mon"
    using ms met by auto
  have ee: "length (ev # evs) = Suc n"
    "\<forall>x \<in> set (ev # evs). Type x = ''metric_update'' \<and> MsgMonitorID x = ID mon"
    using evs evp by simp_all
  have ff: "buf (Broadcast w_end) =
      queue_after (buf (Broadcast w))
        (zip (map p_hub_received (take (Suc n) (first # rest))) (ev # evs))"
    using q q1 by (simp add: queue_after_def)
  show ?thesis
    unfolding d_def[symmetric]
    by (intro exI[of _ n] exI[of _ e] exI[of _ w_end] exI[of _ "ms1 @ ms"] exI[of _ "ev # evs"]
        conjI res[unfolded a] n bound fin late dd ee ff)
qed

theorem scheduler_loop_probes_witness:
  "\<exists>w_end. monitor_goroutine sample_monitor 0 (Some 12000000000) (sample_input 70000000)
       [sample_input 70000000, sample_input 70000000, sample_input 70000000] sample_world =
       ([0, 5000000000, 10000000000], Returned, w_end) \<and>
     length (metrics w_end) = 3 \<and>
     map Type (buf (Broadcast w_end)) = [''metric_update'']"
proof -
  let ?i = "sample_input 70000000"
  have pre: "1 \<le> Interval sample_monitor" "Interval sample_monitor \<le> 9223372036"
    "\<forall>i \<in> set (?i # [?i, ?i, ?i]). 0 \<le> p_duration i \<and> p_duration i < Interval sample_monitor * Second"
    "\<not> closed (semaphore sample_world)"
    "length (buf (semaphore sample_world)) < cap (semaphore sample_world)"
    "\<not> closed (Broadcast sample_world)"
    "hub_keeps_up (cap (Broadcast sample_world)) (length (buf (Broadcast sample_world)))
       (map p_hub_received (?i # [?i, ?i, ?i]))"
    by (simp_all add: sample_monitor_def sample_input_def sample_world_def make_chan_def Second_def)
  from scheduler_loop_probes[OF pre, of 0 "Some 12000000000"]
  obtain n e w_end ms evs where
    run: "monitor_goroutine sample_monitor 0 (Some 12000000000) ?i [?i, ?i, ?i] sample_world =
        (map (\<lambda>k. 0 + int k * (Interval sample_monitor * Second)) [0..<Suc n], e, w_end)"
    and bound: "\<forall>ts. Some 12000000000 = Some ts \<longrightarrow>
         (\<forall>k. 1 \<le> k \<and> k \<le> n \<longrightarrow> 0 + int k * (Interval sample_monitor * Second) \<le> ts)"
    and fin: "e = Waiting \<and> n = length [?i, ?i, ?i] \<or>
       e = Returned \<and> n < length [?i, ?i, ?i] \<and>
         (\<exists>ts. Some 12000000000 = Some ts \<and> ts \<le> 0 + int (Suc n) * (Interval sample_monitor * Second))"
    and late: "\<forall>ts. Some 12000000000 = Some ts \<and> [?i, ?i, ?i] \<noteq> [] \<and>
            ts < 0 + int (length [?i, ?i, ?i]) * (Interval sample_monitor * Second) \<longrightarrow> e = Returned"
    and ms: "metrics w_end = metrics sample_world @ ms"
      "length ms =
        length (filter (\<lambda>i. insert_error (p_env i) = None) (take (Suc n) (?i # [?i, ?i, ?i])))"
    and evs: "length evs = Suc n"
      "\<forall>ev \<in> set evs. Type ev = ''metric_update'' \<and> MsgMonitorID ev = ID sample_monitor"
    and q: "buf (Broadcast w_end) =
        queue_after (buf (Broadcast sample_world))
          (zip (map p_hub_received (take (Suc n) (?i # [?i, ?i, ?i]))) evs)"
    by (elim exE conjE) (rule that; assumption)
  have e: "e = Returned"
    using late by (simp add: sample_monitor_def Second_def)
  with fin have "n < 3" "12000000000 \<le> int (Suc n) * 5000000000"
    by (simp_all add: sample_monitor_def Second_def)
  then have n: "n = 2" by (cases n; cases "n - 1"; cases "n - 2") simp_all
  obtain a b c where abc: "evs = [a, b, c]"
    using evs(1) unfolding n by (cases evs; cases "tl evs"; cases "tl (tl evs)") auto
  have r1: "monitor_goroutine sample_monitor 0 (Some 12000000000) ?i [?i, ?i, ?i] sample_world =
       ([0, 5000000000, 10000000000], Returned, w_end)"
    using run unfolding n e
    by (simp add: sample_monitor_def Second_def upt_conv_Cons del: upt_Suc)
  have r2: "length (metrics w_end) = 3"
    using ms unfolding n
    by (simp add: sample_world_def sample_input_def sample_env_def)
  have r3: "map Type (buf (Broadcast w_end)) = [''metric_update'']"
    using q evs(2) unfolding n abc
    by (simp add: queue_after_def sample_world_def sample_input_def make_chan_def)
  show ?thesis by (intro exI[of _ w_end] conjI r1 r2 r3)
qed

text \<open>
  Claim C6 as stated does not hold for every interval, nor for every probe. With an
  interval of 9223372037 seconds the product with \<open>time.Second\<close> wraps to a negative
  duration, \<open>time.NewTicker\<close> panics and no probe is made. With an interval of one
  second and probes that take 2.5 seconds (the timeout being 10 seconds) the ticker
  drops the firings that find its channel full: the probes start at 0, 2.5 and 5
  seconds, three probes for five firings; and when the stop channel is closed at
  1 second, during the first probe, the \<open>select\<close> that follows finds both channels
  ready and may take the tick, so that a probe starts at 2.5 seconds, after the stop.
  With a hub that has not received any of the 256 messages of its queue, the first
  probe is suspended in \<open>recordMetric\<close> and no periodic probe follows.
\<close>

theorem scheduler_loop_no_probe_counterexample:
  "monitor_goroutine (sample_monitor\<lparr>Interval := 9223372037\<rparr>) 0 None (sample_input 70000000)
     [sample_input 70000000] sample_world = ([], Crashed, sample_world) \<and>
   fst (monitor_goroutine (sample_monitor\<lparr>Interval := 1, Timeout := 10\<rparr>) 0 None
          (sample_input 2500000000) [sample_input 2500000000, sample_input 2500000000]
          sample_world) = [0, 2500000000, 5000000000] \<and>
   fst (monitor_goroutine (sample_monitor\<lparr>Interval := 1, Timeout := 10\<rparr>) 0 (Some 1000000000)
          (sample_input 2500000000) [sample_input 2500000000] sample_world) = [0, 2500000000] \<and>
   (let res = monitor_goroutine sample_monitor 0 None
                ((sample_input 70000000)\<lparr>p_hub_received := 0\<rparr>)
                [sample_input 70000000, sample_input 70000000]
                (sample_world\<lparr>Broadcast := saturated_queue\<rparr>)
    in fst res = [0] \<and> fst (snd res) = InProbe)"
  by code_simp

end
